theory Spec2Isabelle
  imports Main "HOL-Library.Sublist" "HOL-Library.Word"
begin

section \<open>JSON values and their serialisation\<close>

text \<open>
  The values that flow through \<^verbatim>\<open>src/index.ts\<close> are JSON values: the tool arguments, the
  body sent upstream, the body \<^verbatim>\<open>response.json()\<close> yields and the objects the executor
  builds for its three failure shapes.

  A JavaScript string is a sequence of 16-bit code units, and \<^verbatim>\<open>substring\<close>, \<^verbatim>\<open>length\<close> and
  \<^verbatim>\<open>JSON.stringify\<close> work on the code units. The string literals of the source are ASCII;
  \<open>js\<close> gives the code units of one.
\<close>

type_synonym code_unit = "16 word"
type_synonym jsstring = "code_unit list"

definition js :: "string \<Rightarrow> jsstring" where
  "js s = map of_char s"

text \<open>
  A JavaScript number is an IEEE double: zero of either sign, an infinity of either sign, or
  a finite number other than zero (\<^verbatim>\<open>NaN\<close> neither reaches the program from
  \<^verbatim>\<open>response.json()\<close> nor is made by it). \<^verbatim>\<open>Number::toString\<close> writes a finite number other
  than zero from the digits \<open>d\<^sub>1 \<dots> d\<^sub>k\<close> and the exponent \<open>n\<close> for which the number is
  \<open>0.d\<^sub>1 \<dots> d\<^sub>k \<times> 10\<^sup>n\<close>, with \<open>k\<close> as small as the number allows: the first and the last
  digit are not zero. A finite number is carried as these digits and this exponent, so that
  two numbers are equal exactly when they are written alike; which digit sequences are
  doubles is not modelled, and a statement about every number covers every double.
\<close>

datatype nzdigit = N1 | N2 | N3 | N4 | N5 | N6 | N7 | N8 | N9

datatype digit = D0 | DN nzdigit

fun unit_of_nzdigit :: "nzdigit \<Rightarrow> code_unit" where
  "unit_of_nzdigit N1 = 0x31" | "unit_of_nzdigit N2 = 0x32" | "unit_of_nzdigit N3 = 0x33"
| "unit_of_nzdigit N4 = 0x34" | "unit_of_nzdigit N5 = 0x35" | "unit_of_nzdigit N6 = 0x36"
| "unit_of_nzdigit N7 = 0x37" | "unit_of_nzdigit N8 = 0x38" | "unit_of_nzdigit N9 = 0x39"

fun unit_of_digit :: "digit \<Rightarrow> code_unit" where
  "unit_of_digit D0 = 0x30"
| "unit_of_digit (DN d) = unit_of_nzdigit d"

definition units :: "digit list \<Rightarrow> jsstring" where
  "units ds = map unit_of_digit ds"

text \<open>The decimal digits of a natural number, most significant first.\<close>

definition digit_of_nat :: "nat \<Rightarrow> digit" where
  "digit_of_nat d =
     (if d = 0 then D0 else if d = 1 then DN N1 else if d = 2 then DN N2
      else if d = 3 then DN N3 else if d = 4 then DN N4 else if d = 5 then DN N5
      else if d = 6 then DN N6 else if d = 7 then DN N7 else if d = 8 then DN N8
      else DN N9)"

fun nat_of_nzdigit :: "nzdigit \<Rightarrow> nat" where
  "nat_of_nzdigit N1 = 1" | "nat_of_nzdigit N2 = 2" | "nat_of_nzdigit N3 = 3"
| "nat_of_nzdigit N4 = 4" | "nat_of_nzdigit N5 = 5" | "nat_of_nzdigit N6 = 6"
| "nat_of_nzdigit N7 = 7" | "nat_of_nzdigit N8 = 8" | "nat_of_nzdigit N9 = 9"

fun nat_of_digit :: "digit \<Rightarrow> nat" where
  "nat_of_digit D0 = 0"
| "nat_of_digit (DN d) = nat_of_nzdigit d"

fun nat_digits :: "nat \<Rightarrow> digit list" where
  "nat_digits n =
     (if n < 10 then [digit_of_nat n] else nat_digits (n div 10) @ [digit_of_nat (n mod 10)])"

declare nat_digits.simps [simp del]

definition show_nat :: "nat \<Rightarrow> jsstring" where
  "show_nat n = units (nat_digits n)"

text \<open>The digits of a finite number: one digit that is not zero, or a first and a last
  digit that are not zero with any digits between; then the numbers.\<close>

datatype mantissa = Single nzdigit | Multi nzdigit "digit list" nzdigit

datatype number = PosZero | NegZero | Finite bool mantissa int | PosInf | NegInf

fun digits_of :: "mantissa \<Rightarrow> digit list" where
  "digits_of (Single a) = [DN a]"
| "digits_of (Multi a ms b) = DN a # ms @ [DN b]"

text \<open>
  \<^verbatim>\<open>Number::toString\<close> (ECMAScript, radix 10) for the digits \<open>ds\<close>, their number \<open>k\<close> and the
  exponent \<open>n\<close>: the digits followed by \<open>n - k\<close> zeros when \<open>k \<le> n \<le> 21\<close>; the digits with
  a point after the first \<open>n\<close> when \<open>0 < n \<le> 21\<close>; \<^verbatim>\<open>0.\<close>, \<open>-n\<close> zeros and the digits when
  \<open>-6 < n \<le> 0\<close>; and otherwise the exponential form, the first digit, a point and the other
  digits if there are any, \<^verbatim>\<open>e\<close>, the sign of \<open>n - 1\<close> and its decimal digits. So
  \<open>10\<^sup>2\<^sup>1\<close> is written \<^verbatim>\<open>1e+21\<close> and \<open>10\<^sup>2\<^sup>0\<close> is written \<^verbatim>\<open>100000000000000000000\<close>.
\<close>

definition exponent_part :: "int \<Rightarrow> jsstring" where
  "exponent_part n =
     0x65 # (if n - 1 < 0 then 0x2D else 0x2B) # show_nat (nat \<bar>n - 1\<bar>)"

definition finite_to_string :: "mantissa \<Rightarrow> int \<Rightarrow> jsstring" where
  "finite_to_string m n =
     (let ds = digits_of m; k = int (length ds)
      in if k \<le> n \<and> n \<le> 21 then units ds @ replicate (nat (n - k)) 0x30
         else if 0 < n \<and> n \<le> 21 then units (take (nat n) ds) @ 0x2E # units (drop (nat n) ds)
         else if - 6 < n \<and> n \<le> 0 then 0x30 # 0x2E # replicate (nat (- n)) 0x30 @ units ds
         else if k = 1 then units ds @ exponent_part n
         else units (take 1 ds) @ 0x2E # units (drop 1 ds) @ exponent_part n)"

fun NumberToString :: "number \<Rightarrow> jsstring" where
  "NumberToString PosZero = js ''0''"
| "NumberToString NegZero = js ''0''"
| "NumberToString (Finite neg m n) = (if neg then [0x2D] else []) @ finite_to_string m n"
| "NumberToString PosInf = js ''Infinity''"
| "NumberToString NegInf = js ''-Infinity''"

fun is_finite :: "number \<Rightarrow> bool" where
  "is_finite PosInf = False"
| "is_finite NegInf = False"
| "is_finite x = True"

text \<open>The number that a sign, a sequence of digits and an exponent denote,
  \<open>\<plusminus> 0.ds \<times> 10\<^sup>e\<close>: zeros at the front lower the exponent, zeros at the end are
  dropped, and no digit other than zero is left for zero.\<close>

fun strip_trailing :: "digit list \<Rightarrow> (digit list \<times> nzdigit) option" where
  "strip_trailing [] = None"
| "strip_trailing (d # ds) =
     (case strip_trailing ds of
        Some (mid, b) \<Rightarrow> Some (d # mid, b)
      | None \<Rightarrow> (case d of D0 \<Rightarrow> None | DN b \<Rightarrow> Some ([], b)))"

definition normalise :: "bool \<Rightarrow> digit list \<Rightarrow> int \<Rightarrow> number" where
  "normalise neg ds e =
     (case dropWhile (\<lambda>d. d = D0) ds of
        [] \<Rightarrow> if neg then NegZero else PosZero
      | D0 # rest \<Rightarrow> if neg then NegZero else PosZero
      | DN a # rest \<Rightarrow>
          Finite neg
            (case strip_trailing rest of None \<Rightarrow> Single a | Some (mid, b) \<Rightarrow> Multi a mid b)
            (e - int (length (takeWhile (\<lambda>d. d = D0) ds))))"

text \<open>A natural number, such as an HTTP status code, as a number.\<close>

definition number_of_nat :: "nat \<Rightarrow> number" where
  "number_of_nat n = normalise False (nat_digits n) (int (length (nat_digits n)))"

text \<open>A JSON value. An object keeps its members in property order, so it is an
  association list.\<close>

datatype json =
    JNull
  | JBool bool
  | JNum number
  | JStr jsstring
  | JArr "json list"
  | JObj "(jsstring \<times> json) list"

text \<open>
  \<^verbatim>\<open>QuoteJSONString\<close> of ECMAScript: the two-character escapes, \<^verbatim>\<open>\uXXXX\<close> with four
  lower-case hexadecimal digits for the other control characters and for a surrogate that
  has no partner, every other code unit as it is. A leading surrogate followed by a trailing
  one is a code point of its own and is written as it is.
\<close>

definition hex_unit :: "nat \<Rightarrow> code_unit" where
  "hex_unit d =
     (if d = 0 then 0x30 else if d = 1 then 0x31 else if d = 2 then 0x32
      else if d = 3 then 0x33 else if d = 4 then 0x34 else if d = 5 then 0x35
      else if d = 6 then 0x36 else if d = 7 then 0x37 else if d = 8 then 0x38
      else if d = 9 then 0x39 else if d = 10 then 0x61 else if d = 11 then 0x62
      else if d = 12 then 0x63 else if d = 13 then 0x64 else if d = 14 then 0x65
      else 0x66)"

definition UnicodeEscape :: "code_unit \<Rightarrow> jsstring" where
  "UnicodeEscape c =
     [0x5C, 0x75, hex_unit (unat c div 4096), hex_unit (unat c div 256 mod 16),
      hex_unit (unat c div 16 mod 16), hex_unit (unat c mod 16)]"

definition is_leading :: "code_unit \<Rightarrow> bool" where
  "is_leading c = (0xD800 \<le> c \<and> c \<le> 0xDBFF)"

definition is_trailing :: "code_unit \<Rightarrow> bool" where
  "is_trailing c = (0xDC00 \<le> c \<and> c \<le> 0xDFFF)"

definition quote_unit :: "code_unit \<Rightarrow> jsstring" where
  "quote_unit c =
     (if c = 0x08 then [0x5C, 0x62]
      else if c = 0x09 then [0x5C, 0x74]
      else if c = 0x0A then [0x5C, 0x6E]
      else if c = 0x0C then [0x5C, 0x66]
      else if c = 0x0D then [0x5C, 0x72]
      else if c = 0x22 then [0x5C, 0x22]
      else if c = 0x5C then [0x5C, 0x5C]
      else if c < 0x20 \<or> is_leading c \<or> is_trailing c then UnicodeEscape c
      else [c])"

fun quote_units :: "jsstring \<Rightarrow> jsstring" where
  "quote_units [] = []"
| "quote_units [c] = quote_unit c"
| "quote_units (c # d # cs) =
     (if is_leading c \<and> is_trailing d then c # d # quote_units cs
      else quote_unit c @ quote_units (d # cs))"

definition QuoteJSONString :: "jsstring \<Rightarrow> jsstring" where
  "QuoteJSONString s = 0x22 # quote_units s @ [0x22]"

text \<open>The common end of \<^verbatim>\<open>SerializeJSONObject\<close> and \<^verbatim>\<open>SerializeJSONArray\<close>: nothing between
  the brackets when there is no member, the members on one line when the gap is empty, and
  otherwise one member per line, indented by the enclosing indentation plus the gap.\<close>

fun join :: "'a list \<Rightarrow> 'a list list \<Rightarrow> 'a list" where
  "join sep [] = []"
| "join sep [x] = x"
| "join sep (x # y # ys) = x @ sep @ join sep (y # ys)"

definition wrap :: "jsstring \<Rightarrow> jsstring \<Rightarrow> jsstring \<Rightarrow> jsstring \<Rightarrow> jsstring list \<Rightarrow> jsstring" where
  "wrap opn cls gap stepback partial =
     (if partial = [] then opn @ cls
      else if gap = [] then opn @ join (js '','') partial @ cls
      else opn @ [0x0A] @ (stepback @ gap)
             @ join (js '','' @ [0x0A] @ (stepback @ gap)) partial
             @ [0x0A] @ stepback @ cls)"

text \<open>\<^verbatim>\<open>SerializeJSONProperty\<close> for a JSON value: a number that is not finite is written
  \<^verbatim>\<open>null\<close>, and a zero of either sign is written \<^verbatim>\<open>0\<close>.\<close>

fun SerializeJSONProperty :: "jsstring \<Rightarrow> jsstring \<Rightarrow> json \<Rightarrow> jsstring" where
  "SerializeJSONProperty gap indent JNull = js ''null''"
| "SerializeJSONProperty gap indent (JBool b) = (if b then js ''true'' else js ''false'')"
| "SerializeJSONProperty gap indent (JNum x) =
     (if is_finite x then NumberToString x else js ''null'')"
| "SerializeJSONProperty gap indent (JStr s) = QuoteJSONString s"
| "SerializeJSONProperty gap indent (JArr vs) =
     wrap (js ''['') (js '']'') gap indent (map (SerializeJSONProperty gap (indent @ gap)) vs)"
| "SerializeJSONProperty gap indent (JObj ms) =
     wrap (js ''{'') (js ''}'') gap indent
       (map (\<lambda>(k, v). QuoteJSONString k @ js '':'' @ (if gap = [] then [] else js '' '')
                          @ SerializeJSONProperty gap (indent @ gap) v) ms)"

text \<open>\<^verbatim>\<open>JSON.stringify(v)\<close> and \<^verbatim>\<open>JSON.stringify(v, null, 2)\<close>.\<close>

definition JSON_stringify :: "json \<Rightarrow> jsstring" where
  "JSON_stringify v = SerializeJSONProperty [] [] v"

definition JSON_stringify_2 :: "json \<Rightarrow> jsstring" where
  "JSON_stringify_2 v = SerializeJSONProperty (js ''  '') [] v"

text \<open>What is left of a value in the text \<^verbatim>\<open>JSON.stringify\<close> writes: \<^verbatim>\<open>null\<close> for a number
  that is not finite and zero for negative zero, at any depth.\<close>

fun as_written :: "json \<Rightarrow> json" where
  "as_written JNull = JNull"
| "as_written (JBool b) = JBool b"
| "as_written (JNum x) = (if is_finite x then (if x = NegZero then JNum PosZero else JNum x) else JNull)"
| "as_written (JStr s) = JStr s"
| "as_written (JArr vs) = JArr (map as_written vs)"
| "as_written (JObj ms) = JObj (map (\<lambda>(k, v). (k, as_written v)) ms)"

text \<open>A value that \<^verbatim>\<open>JSON.stringify\<close> writes without loss: every number in it is finite and
  is not negative zero.\<close>

fun plain :: "json \<Rightarrow> bool" where
  "plain JNull = True"
| "plain (JBool b) = True"
| "plain (JNum x) = (is_finite x \<and> x \<noteq> NegZero)"
| "plain (JStr s) = True"
| "plain (JArr vs) = list_all plain vs"
| "plain (JObj ms) = list_all (\<lambda>(k, v). plain v) ms"


section \<open>Reading JSON text\<close>

text \<open>
  \<^verbatim>\<open>JSON.parse\<close>: the grammar of JSON (ECMA-404), by descent on the text. White space is
  space, tab, line feed and carriage return. A string is read code unit by code unit, with
  the eight two-character escapes and \<^verbatim>\<open>\uXXXX\<close> for any code unit; a control character is
  refused. A number is an optional minus sign, an integer part without a superfluous zero
  at the front, an optional fraction and an optional exponent, and it is read as the
  decimal number it writes, \<^verbatim>\<open>-0\<close> as negative zero. \<^verbatim>\<open>JSON.parse\<close> goes on to round that
  decimal to the nearest double; on the texts \<^verbatim>\<open>Number::toString\<close> writes the rounding
  changes nothing, those being the shortest digits that denote their double, and the
  rounding of other texts is not modelled. The members of an object are kept in the order
  of the text. The recursion has a bound on the calls that the length of the text covers.
\<close>

definition is_ws :: "code_unit \<Rightarrow> bool" where
  "is_ws c = (c = 0x20 \<or> c = 0x09 \<or> c = 0x0A \<or> c = 0x0D)"

definition skip_ws :: "jsstring \<Rightarrow> jsstring" where
  "skip_ws s = dropWhile is_ws s"

definition digit_of_unit :: "code_unit \<Rightarrow> digit option" where
  "digit_of_unit c =
     (if c = 0x30 then Some D0 else if c = 0x31 then Some (DN N1)
      else if c = 0x32 then Some (DN N2) else if c = 0x33 then Some (DN N3)
      else if c = 0x34 then Some (DN N4) else if c = 0x35 then Some (DN N5)
      else if c = 0x36 then Some (DN N6) else if c = 0x37 then Some (DN N7)
      else if c = 0x38 then Some (DN N8) else if c = 0x39 then Some (DN N9)
      else None)"

text \<open>The escapes of a string, and the code units of a string up to its closing quote.\<close>

definition hex_value :: "code_unit \<Rightarrow> nat option" where
  "hex_value c =
     (case digit_of_unit c of
        Some d \<Rightarrow> Some (nat_of_digit d)
      | None \<Rightarrow>
          if c = 0x61 \<or> c = 0x41 then Some 10 else if c = 0x62 \<or> c = 0x42 then Some 11
          else if c = 0x63 \<or> c = 0x43 then Some 12 else if c = 0x64 \<or> c = 0x44 then Some 13
          else if c = 0x65 \<or> c = 0x45 then Some 14 else if c = 0x66 \<or> c = 0x46 then Some 15
          else None)"

definition hex4 :: "code_unit \<Rightarrow> code_unit \<Rightarrow> code_unit \<Rightarrow> code_unit \<Rightarrow> code_unit option" where
  "hex4 a b c d =
     (case (hex_value a, hex_value b, hex_value c, hex_value d) of
        (Some w, Some x, Some y, Some z) \<Rightarrow> Some (of_nat (((w * 16 + x) * 16 + y) * 16 + z))
      | _ \<Rightarrow> None)"

definition unescape :: "code_unit \<Rightarrow> code_unit option" where
  "unescape e =
     (if e = 0x22 then Some 0x22
      else if e = 0x5C then Some 0x5C
      else if e = 0x2F then Some 0x2F
      else if e = 0x62 then Some 0x08
      else if e = 0x66 then Some 0x0C
      else if e = 0x6E then Some 0x0A
      else if e = 0x72 then Some 0x0D
      else if e = 0x74 then Some 0x09
      else None)"

fun parse_chars :: "jsstring \<Rightarrow> (jsstring \<times> jsstring) option" where
  "parse_chars [] = None"
| "parse_chars (c # cs) =
     (if c = 0x22 then Some ([], cs)
      else if c = 0x5C then
        (case cs of
           [] \<Rightarrow> None
         | e # es \<Rightarrow>
             if e = 0x75 then
               (case es of
                  h1 # h2 # h3 # h4 # r \<Rightarrow>
                    (case hex4 h1 h2 h3 h4 of
                       None \<Rightarrow> None
                     | Some u \<Rightarrow> map_option (\<lambda>(t, r'). (u # t, r')) (parse_chars r))
                | _ \<Rightarrow> None)
             else
               (case unescape e of
                  None \<Rightarrow> None
                | Some d \<Rightarrow> map_option (\<lambda>(t, r'). (d # t, r')) (parse_chars es)))
      else if c < 0x20 then None
      else map_option (\<lambda>(t, r'). (c # t, r')) (parse_chars cs))"

text \<open>The parts of a number: the digits at the front of a text, a fraction, an exponent.\<close>

fun take_digits :: "jsstring \<Rightarrow> digit list \<times> jsstring" where
  "take_digits [] = ([], [])"
| "take_digits (c # cs) =
     (case digit_of_unit c of
        None \<Rightarrow> ([], c # cs)
      | Some d \<Rightarrow> (case take_digits cs of (ds, r) \<Rightarrow> (d # ds, r)))"

definition digits_value :: "digit list \<Rightarrow> nat" where
  "digits_value ds = foldl (\<lambda>a d. 10 * a + nat_of_digit d) 0 ds"

definition parse_frac :: "jsstring \<Rightarrow> (digit list \<times> jsstring) option" where
  "parse_frac s =
     (case s of
        [] \<Rightarrow> Some ([], s)
      | c # cs \<Rightarrow>
          if c = 0x2E
          then (case take_digits cs of (f, r) \<Rightarrow> if f = [] then None else Some (f, r))
          else Some ([], s))"

definition exp_digits :: "bool \<Rightarrow> jsstring \<Rightarrow> (int \<times> jsstring) option" where
  "exp_digits neg s =
     (case take_digits s of
        (ds, r) \<Rightarrow>
          if ds = [] then None
          else Some (if neg then - int (digits_value ds) else int (digits_value ds), r))"

definition parse_exp :: "jsstring \<Rightarrow> (int \<times> jsstring) option" where
  "parse_exp s =
     (case s of
        [] \<Rightarrow> Some (0, s)
      | c # cs \<Rightarrow>
          if c = 0x65 \<or> c = 0x45
          then (case cs of
                  [] \<Rightarrow> None
                | d # ds \<Rightarrow>
                    if d = 0x2D then exp_digits True ds
                    else if d = 0x2B then exp_digits False ds
                    else exp_digits False cs)
          else Some (0, s))"

definition parse_unsigned :: "bool \<Rightarrow> jsstring \<Rightarrow> (number \<times> jsstring) option" where
  "parse_unsigned neg s =
     (case take_digits s of
        (ip, s1) \<Rightarrow>
          if ip = [] then None
          else if hd ip = D0 \<and> 1 < length ip then None
          else
            (case parse_frac s1 of
               None \<Rightarrow> None
             | Some (fp, s2) \<Rightarrow>
                 (case parse_exp s2 of
                    None \<Rightarrow> None
                  | Some (e, s3) \<Rightarrow>
                      Some (normalise neg (ip @ fp) (int (length ip) + e), s3))))"

definition parse_number :: "jsstring \<Rightarrow> (number \<times> jsstring) option" where
  "parse_number s =
     (case s of
        [] \<Rightarrow> None
      | c # cs \<Rightarrow> if c = 0x2D then parse_unsigned True cs else parse_unsigned False s)"

text \<open>The literals \<^verbatim>\<open>null\<close>, \<^verbatim>\<open>true\<close> and \<^verbatim>\<open>false\<close>, or a number.\<close>

definition parse_scalar :: "jsstring \<Rightarrow> (json \<times> jsstring) option" where
  "parse_scalar s =
     (if prefix (js ''null'') s then Some (JNull, drop 4 s)
      else if prefix (js ''true'') s then Some (JBool True, drop 4 s)
      else if prefix (js ''false'') s then Some (JBool False, drop 5 s)
      else map_option (\<lambda>(x, r). (JNum x, r)) (parse_number s))"

text \<open>A value, the elements of an array after its opening bracket, the members of an
  object after its opening brace. Each returns what it read and the text that follows.\<close>

fun parse_value :: "nat \<Rightarrow> jsstring \<Rightarrow> (json \<times> jsstring) option"
  and parse_elements :: "nat \<Rightarrow> jsstring \<Rightarrow> (json list \<times> jsstring) option"
  and parse_members :: "nat \<Rightarrow> jsstring \<Rightarrow> ((jsstring \<times> json) list \<times> jsstring) option"
where
  "parse_value 0 s = None"
| "parse_value (Suc n) s =
     (case skip_ws s of
        [] \<Rightarrow> None
      | c # cs \<Rightarrow>
          if c = 0x5B then
            (case skip_ws cs of
               [] \<Rightarrow> None
             | d # ds \<Rightarrow>
                 if d = 0x5D then Some (JArr [], ds)
                 else map_option (\<lambda>(vs, r). (JArr vs, r)) (parse_elements n cs))
          else if c = 0x7B then
            (case skip_ws cs of
               [] \<Rightarrow> None
             | d # ds \<Rightarrow>
                 if d = 0x7D then Some (JObj [], ds)
                 else map_option (\<lambda>(ms, r). (JObj ms, r)) (parse_members n cs))
          else if c = 0x22 then map_option (\<lambda>(t, r). (JStr t, r)) (parse_chars cs)
          else parse_scalar (c # cs))"
| "parse_elements 0 s = None"
| "parse_elements (Suc n) s =
     (case parse_value n s of
        None \<Rightarrow> None
      | Some (v, r) \<Rightarrow>
          (case skip_ws r of
             [] \<Rightarrow> None
           | c # r' \<Rightarrow>
               if c = 0x2C then map_option (\<lambda>(vs, r''). (v # vs, r'')) (parse_elements n r')
               else if c = 0x5D then Some ([v], r')
               else None))"
| "parse_members 0 s = None"
| "parse_members (Suc n) s =
     (case skip_ws s of
        [] \<Rightarrow> None
      | q # cs \<Rightarrow>
          if q \<noteq> 0x22 then None
          else
            (case parse_chars cs of
               None \<Rightarrow> None
             | Some (k, r) \<Rightarrow>
                 (case skip_ws r of
                    [] \<Rightarrow> None
                  | c # r1 \<Rightarrow>
                      if c \<noteq> 0x3A then None
                      else
                        (case parse_value n r1 of
                           None \<Rightarrow> None
                         | Some (v, r2) \<Rightarrow>
                             (case skip_ws r2 of
                                [] \<Rightarrow> None
                              | c2 # r3 \<Rightarrow>
                                  if c2 = 0x2C then
                                    map_option (\<lambda>(ms, r4). ((k, v) # ms, r4)) (parse_members n r3)
                                  else if c2 = 0x7D then Some ([(k, v)], r3)
                                  else None)))))"

text \<open>\<^verbatim>\<open>JSON.parse(s)\<close>: one value, and nothing but white space after it.\<close>

definition JSON_parse :: "jsstring \<Rightarrow> json option" where
  "JSON_parse s =
     (case parse_value (length s) s of
        None \<Rightarrow> None
      | Some (v, r) \<Rightarrow> if skip_ws r = [] then Some v else None)"


section \<open>Notions for the proofs\<close>

text \<open>The text after a run of digits does not go on with a digit; the text after a number
  does not go on with a digit, a point or an exponent.\<close>

definition digits_end :: "jsstring \<Rightarrow> bool" where
  "digits_end rest = (case rest of [] \<Rightarrow> True | c # cs \<Rightarrow> digit_of_unit c = None)"

definition number_end :: "jsstring \<Rightarrow> bool" where
  "number_end rest =
     (case rest of [] \<Rightarrow> True
      | c # cs \<Rightarrow> digit_of_unit c = None \<and> c \<noteq> 0x2E \<and> c \<noteq> 0x65 \<and> c \<noteq> 0x45)"

text \<open>The number read back from what \<^verbatim>\<open>Number::toString\<close> wrote for a finite number.\<close>

fun written :: "number \<Rightarrow> number" where
  "written NegZero = PosZero"
| "written x = x"

text \<open>A bound on the calls the reader needs for the text of a value.\<close>

fun cost :: "json \<Rightarrow> nat" where
  "cost JNull = 1"
| "cost (JBool b) = 1"
| "cost (JNum x) = 1"
| "cost (JStr t) = 1"
| "cost (JArr vs) = Suc (sum_list (map (\<lambda>v. Suc (cost v)) vs))"
| "cost (JObj ms) = Suc (sum_list (map (\<lambda>(k, v). Suc (cost v)) ms))"


section \<open>The platform: thrown values, responses, effects\<close>

text \<open>
  A value caught by \<^verbatim>\<open>catch (error)\<close>: an instance of \<^verbatim>\<open>Error\<close> with its
  \<^verbatim>\<open>message\<close>, or any other value with what \<^verbatim>\<open>String(error)\<close> makes of it.
\<close>

datatype thrown = ErrorInstance jsstring | OtherValue jsstring

text \<open>
  What the executor reads of the \<^verbatim>\<open>Response\<close> that \<^verbatim>\<open>fetch\<close> resolved to:
  \<^verbatim>\<open>response.status\<close>, what \<^verbatim>\<open>await response.json()\<close> yields (the parsed body, or the
  value it rejects with), and what \<^verbatim>\<open>await response.text()\<close> yields when the handler of the
  inner \<^verbatim>\<open>catch\<close> calls it after \<^verbatim>\<open>response.json()\<close> has rejected. The three are
  fields of their own, so that whatever the platform does is a value of the record.
\<close>

record response =
  status :: nat
  json_result :: "thrown + json"
  text_result :: "thrown + jsstring"

text \<open>\<^verbatim>\<open>response.ok\<close>: the status is in the range 200 to 299.\<close>

definition ok :: "response \<Rightarrow> bool" where
  "ok r = (200 \<le> status r \<and> status r \<le> 299)"

record upstream_request =
  req_url :: jsstring
  req_method :: jsstring
  req_headers :: "(jsstring \<times> jsstring) list"
  req_body :: jsstring

text \<open>The effects of a run, in the order they happen: a line written by
  \<^verbatim>\<open>console.error\<close>, or a call of \<^verbatim>\<open>fetch\<close>.\<close>

datatype event = ConsoleError jsstring | Fetch upstream_request

text \<open>The global \<^verbatim>\<open>fetch\<close>, as the executor uses it: for the request it is given, the value
  its promise rejects with or the response it resolves to.\<close>

type_synonym fetch_fn = "upstream_request \<Rightarrow> thrown + response"


section \<open>The Query Executor\<close>

definition PHAROS_GRAPHQL_ENDPOINT :: jsstring where
  "PHAROS_GRAPHQL_ENDPOINT = js ''https://pharos-api.ncats.io/graphql''"

definition headers :: "(jsstring \<times> jsstring) list" where
  "headers =
     [(js ''Content-Type'', js ''application/json''),
      (js ''User-Agent'',
       js ''MCPPharosServer/1.0.0 (ModelContextProtocol; +https://modelcontextprotocol.io)'')]"

text \<open>\<^verbatim>\<open>const bodyData = { query }; if (variables) { bodyData.variables = variables; }\<close>
  The variables are an object when they are there, and an object is truthy.\<close>

definition bodyData :: "jsstring \<Rightarrow> (jsstring \<times> json) list option \<Rightarrow> json" where
  "bodyData query variables =
     JObj ((js ''query'', JStr query)
           # (case variables of None \<Rightarrow> [] | Some vs \<Rightarrow> [(js ''variables'', JObj vs)]))"

definition upstream_request :: "jsstring \<Rightarrow> (jsstring \<times> json) list option \<Rightarrow> upstream_request" where
  "upstream_request query variables =
     \<lparr> req_url = PHAROS_GRAPHQL_ENDPOINT,
       req_method = js ''POST'',
       req_headers = headers,
       req_body = JSON_stringify (bodyData query variables) \<rparr>"

text \<open>The three objects the executor builds (lines 94-102, 108-116 and 131-138). The status
  is a number: in a template literal it is written by \<^verbatim>\<open>Number::toString\<close>, and as the value
  of \<^verbatim>\<open>statusCode\<close> it is that number.\<close>

definition non_json_response :: "nat \<Rightarrow> jsstring \<Rightarrow> json" where
  "non_json_response st errorText =
     JObj [(js ''errors'', JArr [JObj
       [(js ''message'', JStr (js ''Pharos API Error '' @ NumberToString (number_of_nat st)
                               @ js '': Non-JSON response.'')),
        (js ''extensions'', JObj
           [(js ''statusCode'', JNum (number_of_nat st)),
            (js ''responseText'', JStr (take 1000 errorText))])]])]"

definition http_error :: "nat \<Rightarrow> json \<Rightarrow> json" where
  "http_error st responseBody =
     JObj [(js ''errors'', JArr [JObj
       [(js ''message'', JStr (js ''Pharos API HTTP Error '' @ NumberToString (number_of_nat st))),
        (js ''extensions'', JObj
           [(js ''statusCode'', JNum (number_of_nat st)),
            (js ''responseBody'', responseBody)])]])]"

definition errorMessage :: "thrown \<Rightarrow> jsstring" where
  "errorMessage error = (case error of ErrorInstance m \<Rightarrow> m | OtherValue s \<Rightarrow> s)"

definition client_error :: "thrown \<Rightarrow> json" where
  "client_error error =
     JObj [(js ''errors'', JArr [JObj
       [(js ''message'', JStr (errorMessage error)),
        (js ''extensions'', JObj [(js ''clientError'', JBool True)])]])]"

text \<open>
  The body of the outer \<^verbatim>\<open>try\<close> (lines 66-120). A computation yields \<open>Inl\<close> of the value it
  throws or \<open>Inr\<close> of the value it returns, with the effects it had until then. A rejection
  of \<^verbatim>\<open>fetch\<close> leaves the block at once; a rejection of \<^verbatim>\<open>response.json()\<close> enters the inner
  \<^verbatim>\<open>catch\<close>, whose own \<^verbatim>\<open>await response.text()\<close> leaves the block when it rejects.
\<close>

definition try_block ::
  "fetch_fn \<Rightarrow> jsstring \<Rightarrow> (jsstring \<times> json) list option \<Rightarrow> (thrown + json) \<times> event list" where
  "try_block upstream query variables =
     (let request = upstream_request query variables;
          ev0 = [ConsoleError (js ''Making GraphQL request to: '' @ PHAROS_GRAPHQL_ENDPOINT),
                 Fetch request]
      in case upstream request of
           Inl error \<Rightarrow> (Inl error, ev0)
         | Inr response \<Rightarrow>
            (let ev1 = ev0 @ [ConsoleError (js ''Pharos API response status: ''
                                            @ NumberToString (number_of_nat (status response)))]
             in case json_result response of
                  Inl e \<Rightarrow>
                    (case text_result response of
                       Inl error \<Rightarrow> (Inl error, ev1)
                     | Inr errorText \<Rightarrow>
                         (Inr (non_json_response (status response) errorText),
                          ev1 @ [ConsoleError (js ''Pharos API response is not JSON. Status: ''
                                   @ NumberToString (number_of_nat (status response))
                                   @ js '', Body: '' @ take 500 errorText)]))
                | Inr responseBody \<Rightarrow>
                    if \<not> ok response
                    then (Inr (http_error (status response) responseBody),
                          ev1 @ [ConsoleError (js ''Pharos API HTTP Error ''
                                   @ NumberToString (number_of_nat (status response))
                                   @ js '': '' @ JSON_stringify responseBody)])
                    else (Inr responseBody, ev1)))"

text \<open>\<^verbatim>\<open>executePharosGraphQLQuery\<close> (lines 64-140): the block above, and the outer
  \<^verbatim>\<open>catch\<close> that turns whatever it threw into an object.\<close>

definition executePharosGraphQLQuery ::
  "fetch_fn \<Rightarrow> jsstring \<Rightarrow> (jsstring \<times> json) list option \<Rightarrow> (thrown + json) \<times> event list" where
  "executePharosGraphQLQuery upstream query variables =
     (case try_block upstream query variables of
        (Inl error, evs) \<Rightarrow>
          (Inr (client_error error),
           evs @ [ConsoleError (js ''Client-side error during Pharos GraphQL request: ''
                                @ errorMessage error)])
      | (Inr result, evs) \<Rightarrow> (Inr result, evs))"


section \<open>The Tool Gateway\<close>

record content_item =
  item_type :: jsstring
  item_text :: jsstring

record envelope =
  content :: "content_item list"

text \<open>The callback registered for the tool \<^verbatim>\<open>pharos_graphql_query\<close> (lines 44-59). It has no
  \<^verbatim>\<open>try\<close> of its own: a rejection of the executor's promise would leave it.\<close>

definition pharos_graphql_query ::
  "fetch_fn \<Rightarrow> jsstring \<Rightarrow> (jsstring \<times> json) list option \<Rightarrow> (thrown + envelope) \<times> event list" where
  "pharos_graphql_query upstream query variables =
     (let ev = ConsoleError (js ''Executing pharos_graphql_query with query: ''
                             @ take 200 query @ js ''...'')
               # (case variables of
                    None \<Rightarrow> []
                  | Some vs \<Rightarrow> [ConsoleError (js ''With variables: ''
                                 @ take 150 (JSON_stringify (JObj vs)) @ js ''...'')])
      in case executePharosGraphQLQuery upstream query variables of
           (Inl error, evs) \<Rightarrow> (Inl error, ev @ evs)
         | (Inr result, evs) \<Rightarrow>
             (Inr \<lparr> content = [\<lparr> item_type = js ''text'',
                                  item_text = JSON_stringify_2 result \<rparr>] \<rparr>,
              ev @ evs))"

text \<open>
  The declared parameters (lines 34-43): \<^verbatim>\<open>query: z.string()\<close> and
  \<^verbatim>\<open>variables: z.record(z.any()).optional()\<close>, as zod 3 reads them. \<^verbatim>\<open>z.string()\<close> accepts a
  string and returns it as it is; \<^verbatim>\<open>z.record(z.any())\<close> accepts an object and rebuilds it
  member by member, leaving out a member named \<^verbatim>\<open>__proto__\<close>; \<^verbatim>\<open>.optional()\<close> accepts a
  missing key.
\<close>

definition z_string :: "json \<Rightarrow> jsstring option" where
  "z_string v = (case v of JStr s \<Rightarrow> Some s | _ \<Rightarrow> None)"

definition z_record_any :: "json \<Rightarrow> (jsstring \<times> json) list option" where
  "z_record_any v =
     (case v of JObj ms \<Rightarrow> Some (filter (\<lambda>(k, x). k \<noteq> js ''__proto__'') ms) | _ \<Rightarrow> None)"

definition z_optional :: "(json \<Rightarrow> 'a option) \<Rightarrow> json option \<Rightarrow> 'a option option" where
  "z_optional schema v = (case v of None \<Rightarrow> Some None | Some x \<Rightarrow> map_option Some (schema x))"

definition input_schema ::
  "(jsstring \<times> json) list \<Rightarrow> (jsstring \<times> (jsstring \<times> json) list option) option" where
  "input_schema args =
     (case map_of args (js ''query'') of
        None \<Rightarrow> None
      | Some q \<Rightarrow>
          (case z_string q of
             None \<Rightarrow> None
           | Some query \<Rightarrow>
               (case z_optional z_record_any (map_of args (js ''variables'')) of
                  None \<Rightarrow> None
                | Some variables \<Rightarrow> Some (query, variables))))"


section \<open>Transport routing\<close>

record reply =
  reply_status :: nat
  reply_headers :: "(string \<times> string) list"
  reply_body :: string

text \<open>What the exported \<^verbatim>\<open>fetch\<close> handler (lines 157-178) does with a request, by the
  pathname of its URL: it hands the request to \<^verbatim>\<open>PharosMCP.serveSSE("/sse")\<close>, or it answers
  itself. The pathname of a parsed URL is percent-encoded, so it is a string of ASCII
  characters.\<close>

datatype routed = ServeSSE string | Respond reply

definition not_found_body :: string where
  "not_found_body =
     ''Pharos MCP Server - Path not found.'' @ [CHR 0x0A] @ ''Available MCP paths:''
     @ [CHR 0x0A] @ ''- /sse (for Server-Sent Events transport)''"

definition fetch :: "string \<Rightarrow> routed \<times> event list" where
  "fetch pathname =
     (if pathname = ''/sse'' \<or> prefix ''/sse/'' pathname
      then (ServeSSE ''/sse'', [])
      else (Respond \<lparr> reply_status = 404,
                       reply_headers = [(''Content-Type'', ''text/plain'')],
                       reply_body = not_found_body \<rparr>,
            [ConsoleError (js (''Pharos MCP Server. Requested path '' @ pathname
                               @ '' not found. Listening for SSE on /sse.''))]))"


section \<open>Reading a result\<close>

text \<open>Property access on a JSON value, and the places a caller looks at in a result:
  \<^verbatim>\<open>result.errors[0]\<close>, its \<^verbatim>\<open>message\<close> and the members of its \<^verbatim>\<open>extensions\<close>.\<close>

definition property :: "string \<Rightarrow> json \<Rightarrow> json option" where
  "property k j = (case j of JObj ms \<Rightarrow> map_of ms (js k) | _ \<Rightarrow> None)"

definition first_error :: "json \<Rightarrow> json option" where
  "first_error j = (case property ''errors'' j of Some (JArr (e # es)) \<Rightarrow> Some e | _ \<Rightarrow> None)"


definition extension :: "string \<Rightarrow> json \<Rightarrow> json option" where
  "extension k j =
     (case first_error j of
        None \<Rightarrow> None
      | Some e \<Rightarrow> (case property ''extensions'' e of None \<Rightarrow> None | Some x \<Rightarrow> property k x))"

text \<open>The three failure variants of the specification, told apart by the object the
  executor builds for each.\<close>

definition is_GraphQLHttpError :: "nat \<Rightarrow> json \<Rightarrow> bool" where
  "is_GraphQLHttpError st j =
     (case extension ''responseBody'' j of None \<Rightarrow> False | Some b \<Rightarrow> j = http_error st b)"

definition is_NonJsonResponse :: "nat \<Rightarrow> json \<Rightarrow> bool" where
  "is_NonJsonResponse st j =
     (case extension ''responseText'' j of
        Some (JStr t) \<Rightarrow> length t \<le> 1000 \<and> j = non_json_response st t
      | _ \<Rightarrow> False)"


text \<open>The requests a run sent, in order.\<close>

fun fetches :: "event list \<Rightarrow> upstream_request list" where
  "fetches [] = []"
| "fetches (ConsoleError l # evs) = fetches evs"
| "fetches (Fetch r # evs) = r # fetches evs"


section \<open>Reading strings back\<close>

lemma skip_ws_append: "\<forall>c\<in>set w. is_ws c \<Longrightarrow> skip_ws (w @ s) = skip_ws s"
  by (simp add: skip_ws_def dropWhile_append2)

lemma skip_ws_Cons: "\<not> is_ws c \<Longrightarrow> skip_ws (c # s) = c # s"
  by (simp add: skip_ws_def)

lemma hex_table: "\<forall>d\<in>set [0..<16]. hex_value (hex_unit d) = Some d"
  by code_simp

lemma hex_value_hex_unit: "d < 16 \<Longrightarrow> hex_value (hex_unit d) = Some d"
  using hex_table by simp

lemma nibbles:
  fixes n :: nat
  assumes "n < 65536"
  shows "((n div 4096 * 16 + n div 256 mod 16) * 16 + n div 16 mod 16) * 16 + n mod 16 = n"
    and "n div 4096 < 16"
proof -
  have a: "n div 256 = n div 16 div 16" and b: "n div 4096 = n div 16 div 16 div 16"
    by (simp_all add: div_mult2_eq)
  show "((n div 4096 * 16 + n div 256 mod 16) * 16 + n div 16 mod 16) * 16 + n mod 16 = n"
    unfolding a b by (simp only: div_mult_mod_eq)
  from assms have "n < 16 * 4096" by simp
  then show "n div 4096 < 16" by (rule less_mult_imp_div_less)
qed

lemma of_nat_unat_unit: "of_nat (unat (c :: code_unit)) = c"
  by simp

lemma hex4_UnicodeEscape:
  "hex4 (hex_unit (unat c div 4096)) (hex_unit (unat c div 256 mod 16))
        (hex_unit (unat c div 16 mod 16)) (hex_unit (unat c mod 16)) = Some c"
proof -
  have lt: "unat c < 65536"
    using unsigned_less [of c] by simp
  have hv: "hex_value (hex_unit (unat c div 4096)) = Some (unat c div 4096)"
    "hex_value (hex_unit (unat c div 256 mod 16)) = Some (unat c div 256 mod 16)"
    "hex_value (hex_unit (unat c div 16 mod 16)) = Some (unat c div 16 mod 16)"
    "hex_value (hex_unit (unat c mod 16)) = Some (unat c mod 16)"
    by (simp_all add: hex_value_hex_unit nibbles(2) [OF lt])
  show ?thesis
    unfolding hex4_def hv
    by (simp only: prod.case option.case nibbles(1) [OF lt] of_nat_unat_unit)
qed

lemma parse_chars_UnicodeEscape:
  "parse_chars (UnicodeEscape c @ s) = map_option (\<lambda>(t, r). (c # t, r)) (parse_chars s)"
  by (simp add: UnicodeEscape_def hex4_UnicodeEscape)

lemma parse_chars_literal:
  "c \<noteq> 0x22 \<Longrightarrow> c \<noteq> 0x5C \<Longrightarrow> \<not> c < 0x20 \<Longrightarrow>
   parse_chars (c # s) = map_option (\<lambda>(t, r). (c # t, r)) (parse_chars s)"
  by simp

lemma parse_chars_quote_unit:
  "parse_chars (quote_unit c @ s) = map_option (\<lambda>(t, r). (c # t, r)) (parse_chars s)"
  by (simp add: quote_unit_def unescape_def parse_chars_UnicodeEscape del: parse_chars.simps)
     (simp add: unescape_def)

lemma surrogate_literal:
  assumes "is_leading c \<or> is_trailing c"
  shows "c \<noteq> 0x22" "c \<noteq> 0x5C" "\<not> c < 0x20"
proof -
  have step: "(0xD800 :: code_unit) \<le> 0xDC00" by simp
  from assms have low: "0xD800 \<le> c"
  proof
    assume "is_leading c"
    then show ?thesis by (simp add: is_leading_def)
  next
    assume "is_trailing c"
    then have "0xDC00 \<le> c" by (simp add: is_trailing_def)
    with step show ?thesis by (rule order_trans)
  qed
  show "c \<noteq> 0x22"
  proof
    assume "c = 0x22"
    with low have "(0xD800 :: code_unit) \<le> 0x22" by simp
    then show False by simp
  qed
  show "c \<noteq> 0x5C"
  proof
    assume "c = 0x5C"
    with low have "(0xD800 :: code_unit) \<le> 0x5C" by simp
    then show False by simp
  qed
  show "\<not> c < 0x20"
  proof
    assume "c < 0x20"
    with low have "(0xD800 :: code_unit) < 0x20" by (rule le_less_trans)
    then show False by simp
  qed
qed

lemma parse_chars_quoted:
  "parse_chars (quote_units t @ 0x22 # rest) = Some (t, rest)"
proof (induction t rule: quote_units.induct)
  case 1
  show ?case by simp
next
  case (2 c)
  have "parse_chars (quote_unit c @ 0x22 # rest)
          = map_option (\<lambda>(t, r). (c # t, r)) (parse_chars (0x22 # rest))"
    by (rule parse_chars_quote_unit)
  then show ?case by simp
next
  case (3 c d cs)
  show ?case
  proof (cases "is_leading c \<and> is_trailing d")
    case True
    with 3 have ih: "parse_chars (quote_units cs @ 0x22 # rest) = Some (cs, rest)"
      by simp
    have "parse_chars (c # d # quote_units cs @ 0x22 # rest) = Some (c # d # cs, rest)"
      using True surrogate_literal [of c] surrogate_literal [of d] ih
      by (simp add: parse_chars_literal del: parse_chars.simps)
    with True show ?thesis by (simp del: parse_chars.simps)
  next
    case False
    with 3 have ih: "parse_chars (quote_units (d # cs) @ 0x22 # rest) = Some (d # cs, rest)"
      by simp
    have "quote_units (c # d # cs) = quote_unit c @ quote_units (d # cs)"
      by (subst quote_units.simps) (rule if_not_P, rule False)
    then show ?thesis
      using ih by (simp add: parse_chars_quote_unit del: parse_chars.simps quote_units.simps)
  qed
qed


section \<open>Reading numbers back\<close>

lemma digit_of_unit_of_nzdigit: "digit_of_unit (unit_of_nzdigit a) = Some (DN a)"
  by (cases a) (simp_all add: digit_of_unit_def)

lemma digit_of_unit_of_digit: "digit_of_unit (unit_of_digit d) = Some d"
  by (cases d) (simp_all add: digit_of_unit_of_nzdigit, simp add: digit_of_unit_def)

lemma units_simps:
  "units [] = []" "units (d # ds) = unit_of_digit d # units ds"
  "units (xs @ ys) = units xs @ units ys" "units (replicate j D0) = replicate j 0x30"
  by (simp_all add: units_def)

lemma number_end_digits_end: "number_end rest \<Longrightarrow> digits_end rest"
  by (cases rest) (simp_all add: number_end_def digits_end_def)

lemma take_digits_units:
  "digits_end rest \<Longrightarrow> take_digits (units ds @ rest) = (ds, rest)"
proof (induction ds)
  case Nil
  then show ?case by (cases rest) (simp_all add: units_simps digits_end_def)
next
  case (Cons d ds)
  then show ?case by (simp add: units_simps digit_of_unit_of_digit)
qed

lemma digits_end_simps:
  "digits_end (0x2E # s)" "digits_end (0x65 # s)" "digits_end []"
  by (simp_all add: digits_end_def digit_of_unit_def)

lemma strip_trailing_zeros: "strip_trailing (replicate j D0) = None"
  by (induction j) simp_all

lemma strip_trailing_last: "strip_trailing (mid @ DN b # replicate j D0) = Some (mid, b)"
  by (induction mid) (simp_all add: strip_trailing_zeros)

lemma normalise_digits:
  "normalise neg (replicate z D0 @ digits_of m @ replicate t D0) e = Finite neg m (e - int z)"
proof -
  obtain a rest where ds: "digits_of m = DN a # rest"
    by (cases m) simp_all
  have dw: "dropWhile (\<lambda>d. d = D0) (replicate z D0 @ DN a # rest @ replicate t D0)
              = DN a # rest @ replicate t D0"
    by (induction z) simp_all
  have tw: "takeWhile (\<lambda>d. d = D0) (replicate z D0 @ DN a # rest @ replicate t D0)
              = replicate z D0"
    by (induction z) simp_all
  have m: "(case strip_trailing (rest @ replicate t D0) of
              None \<Rightarrow> Single a | Some (mid, b) \<Rightarrow> Multi a mid b) = m"
  proof (cases m)
    case (Single a')
    with ds show ?thesis by (simp add: strip_trailing_zeros)
  next
    case (Multi a' mid b)
    with ds have "a' = a" and "rest = mid @ [DN b]" by simp_all
    with Multi show ?thesis by (simp add: strip_trailing_last)
  qed
  show ?thesis
    unfolding normalise_def ds by (simp add: dw tw m)
qed

lemma nat_of_digit_of_nat: "d < 10 \<Longrightarrow> nat_of_digit (digit_of_nat d) = d"
proof -
  have "\<forall>d\<in>set [0..<10]. nat_of_digit (digit_of_nat d) = d"
    by code_simp
  then show "d < 10 \<Longrightarrow> nat_of_digit (digit_of_nat d) = d"
    by simp
qed

lemma digits_value_nat_digits: "digits_value (nat_digits n) = n"
proof (induction n rule: nat_digits.induct)
  case (1 n)
  show ?case
  proof (cases "n < 10")
    case True
    then show ?thesis
      by (subst nat_digits.simps) (simp add: digits_value_def nat_of_digit_of_nat)
  next
    case False
    with 1 have "digits_value (nat_digits (n div 10)) = n div 10" by simp
    with False show ?thesis
      by (subst nat_digits.simps) (simp add: digits_value_def nat_of_digit_of_nat)
  qed
qed

lemma nat_digits_nonempty: "nat_digits n \<noteq> []"
  by (subst nat_digits.simps) simp

lemma exp_digits_show_nat:
  "digits_end rest \<Longrightarrow>
   exp_digits neg (show_nat n @ rest) = Some (if neg then - int n else int n, rest)"
  by (simp add: exp_digits_def show_nat_def take_digits_units nat_digits_nonempty
        digits_value_nat_digits)

lemma parse_exp_exponent_part:
  "digits_end rest \<Longrightarrow> parse_exp (exponent_part n @ rest) = Some (n - 1, rest)"
  by (simp add: parse_exp_def exponent_part_def exp_digits_show_nat)

lemma parse_exp_none: "number_end rest \<Longrightarrow> parse_exp rest = Some (0, rest)"
  by (cases rest) (simp_all add: parse_exp_def number_end_def)

lemma parse_frac_none: "number_end rest \<Longrightarrow> parse_frac rest = Some ([], rest)"
  by (cases rest) (simp_all add: parse_frac_def number_end_def)

lemma parse_frac_exponent: "parse_frac (exponent_part n @ rest) = Some ([], exponent_part n @ rest)"
  by (simp add: parse_frac_def exponent_part_def)

lemma parse_frac_digits:
  "ds \<noteq> [] \<Longrightarrow> digits_end rest \<Longrightarrow> parse_frac (0x2E # units ds @ rest) = Some (ds, rest)"
  by (simp add: parse_frac_def take_digits_units)

lemma digits_end_exponent: "digits_end (exponent_part n @ rest)"
  by (simp add: exponent_part_def digits_end_simps)

lemma parse_unsigned_finite:
  assumes "number_end rest"
  shows "parse_unsigned neg (finite_to_string m n @ rest) = Some (Finite neg m n, rest)"
proof -
  obtain a dtl where ds: "digits_of m = DN a # dtl"
    by (cases m) simp_all
  let ?ds = "digits_of m"
  let ?k = "int (length ?ds)"
  have de: "digits_end rest"
    using assms by (rule number_end_digits_end)
  note tail = parse_frac_none [OF assms] parse_exp_none [OF assms]
  consider (A) "?k \<le> n" "n \<le> 21"
    | (B) "\<not> (?k \<le> n \<and> n \<le> 21)" "0 < n" "n \<le> 21"
    | (C) "\<not> (?k \<le> n \<and> n \<le> 21)" "\<not> (0 < n \<and> n \<le> 21)" "- 6 < n" "n \<le> 0"
    | (D) "\<not> (?k \<le> n \<and> n \<le> 21)" "\<not> (0 < n \<and> n \<le> 21)" "\<not> (- 6 < n \<and> n \<le> 0)" "?k = 1"
    | (E) "\<not> (?k \<le> n \<and> n \<le> 21)" "\<not> (0 < n \<and> n \<le> 21)" "\<not> (- 6 < n \<and> n \<le> 0)" "?k \<noteq> 1"
    by blast
  then show ?thesis
  proof cases
    case A
    let ?j = "nat (n - ?k)"
    have shape: "finite_to_string m n @ rest = units (?ds @ replicate ?j D0) @ rest"
      using A by (simp add: finite_to_string_def Let_def units_simps)
    have td: "take_digits (units (?ds @ replicate ?j D0) @ rest) = (?ds @ replicate ?j D0, rest)"
      using de by (rule take_digits_units)
    have norm: "normalise neg (replicate 0 D0 @ ?ds @ replicate ?j D0) (int (length (?ds @ replicate ?j D0)))
                  = Finite neg m n"
      unfolding normalise_digits using A by simp
    show ?thesis
      unfolding shape parse_unsigned_def td
      using norm by (simp add: tail ds)
  next
    case B
    then have nk: "nat n < length ?ds" by simp
    have shape: "finite_to_string m n @ rest
                  = units (take (nat n) ?ds) @ 0x2E # units (drop (nat n) ?ds) @ rest"
      using B by (simp add: finite_to_string_def Let_def)
    have td: "take_digits (units (take (nat n) ?ds) @ 0x2E # units (drop (nat n) ?ds) @ rest)
                = (take (nat n) ?ds, 0x2E # units (drop (nat n) ?ds) @ rest)"
      by (rule take_digits_units) (rule digits_end_simps)
    have fr: "parse_frac (0x2E # units (drop (nat n) ?ds) @ rest) = Some (drop (nat n) ?ds, rest)"
      using nk de by (intro parse_frac_digits) simp_all
    have first: "take (nat n) ?ds = DN a # take (nat n - 1) dtl"
      using B ds by (cases "nat n") simp_all
    have norm: "normalise neg (replicate 0 D0 @ ?ds @ replicate 0 D0) (int (length (take (nat n) ?ds)))
                  = Finite neg m n"
      unfolding normalise_digits using B nk by simp
    have ne: "take (nat n) ?ds \<noteq> []" and h: "hd (take (nat n) ?ds) = DN a"
      using first by simp_all
    have dne: "digits_of m \<noteq> []"
      using ds by simp
    show ?thesis
      unfolding shape parse_unsigned_def td
      using norm B(2) dne by (simp add: fr tail h)
  next
    case C
    let ?z = "nat (- n)"
    have shape: "finite_to_string m n @ rest = units [D0] @ 0x2E # units (replicate ?z D0 @ ?ds) @ rest"
      using C by (simp add: finite_to_string_def Let_def units_simps)
    have td: "take_digits (units [D0] @ 0x2E # units (replicate ?z D0 @ ?ds) @ rest)
                = ([D0], 0x2E # units (replicate ?z D0 @ ?ds) @ rest)"
      by (rule take_digits_units) (rule digits_end_simps)
    have fr: "parse_frac (0x2E # units (replicate ?z D0 @ ?ds) @ rest)
                = Some (replicate ?z D0 @ ?ds, rest)"
      using de by (intro parse_frac_digits) (simp_all add: ds)
    have norm: "normalise neg (replicate (Suc ?z) D0 @ ?ds @ replicate 0 D0) 1 = Finite neg m n"
      unfolding normalise_digits using C by simp
    show ?thesis
      unfolding shape parse_unsigned_def td
      using norm by (simp add: fr tail)
  next
    case D
    have shape: "finite_to_string m n @ rest = units ?ds @ exponent_part n @ rest"
      using D by (auto simp: finite_to_string_def Let_def)
    have td: "take_digits (units ?ds @ exponent_part n @ rest) = (?ds, exponent_part n @ rest)"
      by (rule take_digits_units) (rule digits_end_exponent)
    have norm: "normalise neg (replicate 0 D0 @ ?ds @ replicate 0 D0) (1 + (n - 1)) = Finite neg m n"
      unfolding normalise_digits by simp
    show ?thesis
      unfolding shape parse_unsigned_def td
      using norm D(4) by (simp add: parse_frac_exponent parse_exp_exponent_part [OF de] ds)
  next
    case E
    have shape: "finite_to_string m n @ rest
                  = units [DN a] @ 0x2E # units dtl @ exponent_part n @ rest"
      using E by (auto simp: finite_to_string_def Let_def ds units_simps)
    have td: "take_digits (units [DN a] @ 0x2E # units dtl @ exponent_part n @ rest)
                = ([DN a], 0x2E # units dtl @ exponent_part n @ rest)"
      by (rule take_digits_units) (rule digits_end_simps)
    have "dtl \<noteq> []" using E(4) ds by auto
    then have fr: "parse_frac (0x2E # units dtl @ exponent_part n @ rest)
                = Some (dtl, exponent_part n @ rest)"
      by (intro parse_frac_digits digits_end_exponent)
    have norm: "normalise neg (replicate 0 D0 @ ?ds @ replicate 0 D0) (1 + (n - 1)) = Finite neg m n"
      unfolding normalise_digits by simp
    show ?thesis
      unfolding shape parse_unsigned_def td
      using norm by (simp add: fr parse_exp_exponent_part [OF de] ds)
  qed
qed

lemma parse_unsigned_zero:
  assumes "number_end rest"
  shows "parse_unsigned neg (0x30 # rest) = Some (if neg then NegZero else PosZero, rest)"
proof -
  have td: "take_digits (units [D0] @ rest) = ([D0], rest)"
    using assms by (intro take_digits_units number_end_digits_end)
  then show ?thesis
    using parse_frac_none [OF assms] parse_exp_none [OF assms]
    by (simp add: parse_unsigned_def units_simps normalise_def)
qed

lemma finite_to_string_first:
  "\<exists>c cs. finite_to_string m n = c # cs \<and> digit_of_unit c \<noteq> None"
proof -
  obtain a dtl where ds: "digits_of m = DN a # dtl"
    by (cases m) simp_all
  have "(\<exists>cs. finite_to_string m n = unit_of_digit (DN a) # cs)
          \<or> (\<exists>cs. finite_to_string m n = unit_of_digit D0 # cs)"
    by (simp add: finite_to_string_def Let_def ds units_simps take_Cons')
  then show ?thesis
    using digit_of_unit_of_digit by (metis option.distinct(1))
qed

lemma digit_not_minus: "digit_of_unit c \<noteq> None \<Longrightarrow> c \<noteq> 0x2D"
  by (auto simp: digit_of_unit_def)

lemma parse_number_written:
  assumes "number_end rest" and "is_finite x"
  shows "parse_number (NumberToString x @ rest) = Some (written x, rest)"
proof (cases x)
  case PosZero
  then show ?thesis
    using parse_unsigned_zero [OF assms(1), of False] by (simp add: parse_number_def js_def)
next
  case NegZero
  then show ?thesis
    using parse_unsigned_zero [OF assms(1), of False] by (simp add: parse_number_def js_def)
next
  case (Finite neg m n)
  obtain c cs where c: "finite_to_string m n = c # cs" "digit_of_unit c \<noteq> None"
    using finite_to_string_first by blast
  show ?thesis
  proof (cases neg)
    case True
    with Finite show ?thesis
      using parse_unsigned_finite [OF assms(1), of True m n] by (simp add: parse_number_def)
  next
    case False
    have "parse_number (c # cs @ rest) = parse_unsigned False (c # cs @ rest)"
      using digit_not_minus [OF c(2)] by (simp add: parse_number_def)
    with False Finite c(1) show ?thesis
      using parse_unsigned_finite [OF assms(1), of False m n] by simp
  qed
next
  case PosInf
  with assms(2) show ?thesis by simp
next
  case NegInf
  with assms(2) show ?thesis by simp
qed


section \<open>Reading values back\<close>

lemma parse_value_skip:
  "\<forall>c\<in>set w. is_ws c \<Longrightarrow> parse_value n (w @ s) = parse_value n s"
  by (cases n) (simp_all add: skip_ws_append)

lemma parse_value_scalar:
  "\<not> is_ws c \<Longrightarrow> c \<noteq> 0x5B \<Longrightarrow> c \<noteq> 0x7B \<Longrightarrow> c \<noteq> 0x22 \<Longrightarrow>
   parse_value (Suc m) (c # s) = parse_scalar (c # s)"
  by (simp add: skip_ws_Cons)

lemma digit_cases:
  assumes "digit_of_unit c \<noteq> None"
  shows "c = 0x30 \<or> c = 0x31 \<or> c = 0x32 \<or> c = 0x33 \<or> c = 0x34 \<or> c = 0x35 \<or> c = 0x36
         \<or> c = 0x37 \<or> c = 0x38 \<or> c = 0x39"
  using assms unfolding digit_of_unit_def by (simp split: if_splits)

lemma digit_not_special:
  assumes "digit_of_unit c \<noteq> None"
  shows "\<not> is_ws c" "c \<noteq> 0x5B" "c \<noteq> 0x5D" "c \<noteq> 0x7B" "c \<noteq> 0x7D" "c \<noteq> 0x22"
    "c \<noteq> 0x6E" "c \<noteq> 0x74" "c \<noteq> 0x66"
  using digit_cases [OF assms] unfolding is_ws_def by (elim disjE; simp)+

lemma minus_not_special:
  "\<not> is_ws 0x2D" "digit_of_unit 0x2D = None"
  by (simp_all add: is_ws_def digit_of_unit_def)

lemma number_first:
  assumes "is_finite x"
  shows "\<exists>c cs. NumberToString x = c # cs \<and> (digit_of_unit c \<noteq> None \<or> c = 0x2D)"
proof (cases x)
  case (Finite neg m n)
  obtain c cs where "finite_to_string m n = c # cs" "digit_of_unit c \<noteq> None"
    using finite_to_string_first by blast
  with Finite show ?thesis by (cases neg) simp_all
qed (use assms in \<open>simp_all add: js_def digit_of_unit_def\<close>)

lemma parse_scalar_number:
  assumes "number_end rest" and "is_finite x"
  shows "parse_scalar (NumberToString x @ rest) = Some (JNum (written x), rest)"
proof -
  obtain c cs where c: "NumberToString x = c # cs" "digit_of_unit c \<noteq> None \<or> c = 0x2D"
    using number_first [OF assms(2)] by blast
  then have "c \<noteq> 0x6E" "c \<noteq> 0x74" "c \<noteq> 0x66"
    using digit_not_special(7-9) [of c] by auto
  then have "parse_scalar (c # cs @ rest)
               = map_option (\<lambda>(x, r). (JNum x, r)) (parse_number (c # cs @ rest))"
    by (simp add: parse_scalar_def js_def)
  with c(1) show ?thesis
    using parse_number_written [OF assms] by simp
qed

lemma parse_scalar_literals:
  "parse_scalar (js ''null'' @ rest) = Some (JNull, rest)"
  "parse_scalar (js ''true'' @ rest) = Some (JBool True, rest)"
  "parse_scalar (js ''false'' @ rest) = Some (JBool False, rest)"
  by (simp_all add: parse_scalar_def js_def)

lemma literal_first:
  "js ''null'' = 0x6E # js ''ull''" "js ''true'' = 0x74 # js ''rue''"
  "js ''false'' = 0x66 # js ''alse''"
  "\<not> is_ws 0x6E" "\<not> is_ws 0x74" "\<not> is_ws 0x66"
  by (simp_all add: js_def is_ws_def)

lemma ser_first:
  "\<exists>c cs. SerializeJSONProperty gap ind v = c # cs \<and> \<not> is_ws c \<and> c \<noteq> 0x5D \<and> c \<noteq> 0x7D"
proof (cases v)
  case (JNum x)
  show ?thesis
  proof (cases "is_finite x")
    case True
    obtain c cs where "NumberToString x = c # cs" "digit_of_unit c \<noteq> None \<or> c = 0x2D"
      using number_first [OF True] by blast
    with JNum True show ?thesis
      using digit_not_special [of c] minus_not_special by auto
  next
    case False
    with JNum show ?thesis by (simp add: js_def is_ws_def)
  qed
qed (auto simp: is_ws_def QuoteJSONString_def wrap_def js_def)

lemma join_Cons: "ys \<noteq> [] \<Longrightarrow> join sep (y # ys) = y @ sep @ join sep ys"
  by (cases ys) simp_all

lemma ws_not_number:
  "is_ws c \<Longrightarrow> digit_of_unit c = None \<and> c \<noteq> 0x2E \<and> c \<noteq> 0x65 \<and> c \<noteq> 0x45"
  unfolding is_ws_def by (elim disjE) (simp_all add: digit_of_unit_def)

lemma number_end_ws:
  assumes "\<forall>c\<in>set post. is_ws c" and "digit_of_unit e = None" and "e \<noteq> 0x2E"
    and "e \<noteq> 0x65" and "e \<noteq> 0x45"
  shows "number_end (post @ e # rest)"
proof (cases post)
  case Nil
  with assms(2-) show ?thesis by (simp add: number_end_def)
next
  case (Cons c post')
  with assms(1) have "is_ws c" by simp
  from ws_not_number [OF this] Cons show ?thesis by (simp add: number_end_def)
qed

lemma closers:
  "\<not> is_ws 0x5D" "digit_of_unit 0x5D = None" "\<not> is_ws 0x7D" "digit_of_unit 0x7D = None"
  "\<not> is_ws 0x2C" "digit_of_unit 0x2C = None" "\<not> is_ws 0x3A" "\<not> is_ws 0x22"
  "\<not> is_ws 0x5B" "\<not> is_ws 0x7B"
  by (simp_all add: is_ws_def digit_of_unit_def)

lemma roundtrip_elements:
  assumes "vs \<noteq> []"
    and "\<And>v rest n. v \<in> set vs \<Longrightarrow> number_end rest \<Longrightarrow> cost v \<le> n \<Longrightarrow>
           parse_value n (ser v @ rest) = Some (back v, rest)"
    and "\<forall>c\<in>set pre. is_ws c" and "\<forall>c\<in>set post. is_ws c"
    and "sum_list (map (\<lambda>v. Suc (cost v)) vs) \<le> n"
  shows "parse_elements n (pre @ join (0x2C # pre) (map ser vs) @ post @ 0x5D # rest)
           = Some (map back vs, rest)"
  using assms
proof (induction vs arbitrary: n rule: list_nonempty_induct)
  case (single v)
  from single.prems(4) obtain m where n: "n = Suc m" "cost v \<le> m"
    by (cases n) simp_all
  have "number_end (post @ 0x5D # rest)"
    using single.prems(3) by (intro number_end_ws) (simp_all add: closers)
  then have "parse_value m (pre @ ser v @ post @ 0x5D # rest)
               = Some (back v, post @ 0x5D # rest)"
    using single.prems(1) [of v "post @ 0x5D # rest" m] single.prems(2) n
    by (simp add: parse_value_skip)
  then show ?case
    using single.prems(3) by (simp add: n skip_ws_append skip_ws_Cons closers)
next
  case (cons v vs)
  from cons.prems(4) obtain m
    where n: "n = Suc m" "cost v \<le> m" "sum_list (map (\<lambda>v. Suc (cost v)) vs) \<le> m"
    by (cases n) simp_all
  let ?tail = "pre @ join (0x2C # pre) (map ser vs) @ post @ 0x5D # rest"
  have "number_end (0x2C # ?tail)"
    by (simp add: number_end_def closers)
  then have "parse_value m (pre @ ser v @ 0x2C # ?tail) = Some (back v, 0x2C # ?tail)"
    using cons.prems(1) [of v "0x2C # ?tail" m] cons.prems(2) n
    by (simp add: parse_value_skip)
  moreover have "parse_elements m ?tail = Some (map back vs, rest)"
  proof (rule cons.IH)
    show "parse_value n (ser v @ rest) = Some (back v, rest)"
      if "v \<in> set vs" "number_end rest" "cost v \<le> n" for v rest n
      using cons.prems(1) [of v rest n] that by simp
  qed (use cons.prems(2-) n in simp_all)
  ultimately show ?case
    using cons.hyps by (simp add: n join_Cons skip_ws_Cons closers)
qed

lemma roundtrip_members:
  assumes "ms \<noteq> []"
    and "\<And>k v rest n. (k, v) \<in> set ms \<Longrightarrow> number_end rest \<Longrightarrow> cost v \<le> n \<Longrightarrow>
           parse_value n (ser v @ rest) = Some (back v, rest)"
    and "\<forall>c\<in>set pre. is_ws c" and "\<forall>c\<in>set post. is_ws c" and "\<forall>c\<in>set sp. is_ws c"
    and "sum_list (map (\<lambda>(k, v). Suc (cost v)) ms) \<le> n"
  shows "parse_members n
           (pre @ join (0x2C # pre)
                    (map (\<lambda>(k, v). QuoteJSONString k @ 0x3A # sp @ ser v) ms)
                @ post @ 0x7D # rest)
           = Some (map (\<lambda>(k, v). (k, back v)) ms, rest)"
  using assms
proof (induction ms arbitrary: n rule: list_nonempty_induct)
  case (single kv)
  obtain k v where kv: "kv = (k, v)" by (cases kv)
  from single.prems(5) obtain m where n: "n = Suc m" "cost v \<le> m"
    by (cases n) (simp_all add: kv)
  have "number_end (post @ 0x7D # rest)"
    using single.prems(3) by (intro number_end_ws) (simp_all add: closers)
  then have "parse_value m (sp @ ser v @ post @ 0x7D # rest)
               = Some (back v, post @ 0x7D # rest)"
    using single.prems(1) [of k v "post @ 0x7D # rest" m] single.prems(4) n
    by (simp add: parse_value_skip kv)
  then show ?case
    using single.prems(2,3)
    by (simp add: n kv skip_ws_append skip_ws_Cons closers QuoteJSONString_def parse_chars_quoted
          del: parse_chars.simps)
next
  case (cons kv ms)
  obtain k v where kv: "kv = (k, v)" by (cases kv)
  from cons.prems(5) obtain m where n: "n = Suc m" "cost v \<le> m"
      "sum_list (map (\<lambda>(k, v). Suc (cost v)) ms) \<le> m"
    by (cases n) (simp_all add: kv)
  let ?tail = "pre @ join (0x2C # pre)
                        (map (\<lambda>(k, v). QuoteJSONString k @ 0x3A # sp @ ser v) ms)
               @ post @ 0x7D # rest"
  have "number_end (0x2C # ?tail)"
    by (simp add: number_end_def closers)
  then have "parse_value m (sp @ ser v @ 0x2C # ?tail) = Some (back v, 0x2C # ?tail)"
    using cons.prems(1) [of k v "0x2C # ?tail" m] cons.prems(4) n
    by (simp add: parse_value_skip kv)
  moreover have "parse_members m ?tail = Some (map (\<lambda>(k, v). (k, back v)) ms, rest)"
  proof (rule cons.IH)
    show "parse_value n (ser v @ rest) = Some (back v, rest)"
      if "(k, v) \<in> set ms" "number_end rest" "cost v \<le> n" for k v rest n
      using cons.prems(1) [of k v rest n] that by simp
  qed (use cons.prems(2-) n in simp_all)
  ultimately show ?case
    using cons.hyps cons.prems(2)
    by (simp add: n kv join_Cons skip_ws_append skip_ws_Cons closers QuoteJSONString_def
          parse_chars_quoted del: parse_chars.simps)
qed

lemma wrap_nonempty:
  "partial \<noteq> [] \<Longrightarrow>
   wrap opn cls gap ind partial
     = opn @ (if gap = [] then [] else 0x0A # ind @ gap)
           @ join (0x2C # (if gap = [] then [] else 0x0A # ind @ gap)) partial
           @ (if gap = [] then [] else 0x0A # ind) @ cls"
  by (simp add: wrap_def js_def)

lemma join_first:
  assumes "hd xs = c # cs" and "xs \<noteq> []"
  shows "\<exists>ds. join sep xs @ s = c # ds"
proof (cases xs)
  case Nil
  with assms(2) show ?thesis by simp
next
  case (Cons x xs')
  with assms(1) show ?thesis by (cases xs') auto
qed

lemma is_ws_newline: "is_ws 0x0A" "is_ws 0x20"
  by (simp_all add: is_ws_def)

lemma brackets: "js ''['' = [0x5B]" "js '']'' = [0x5D]" "js ''{'' = [0x7B]" "js ''}'' = [0x7D]"
  "js '':'' = [0x3A]" "js '' '' = [0x20]" "js ''  '' = [0x20, 0x20]"
  by (simp_all add: js_def)

lemma written_as_written:
  "is_finite x \<Longrightarrow> JNum (written x) = as_written (JNum x)"
  by (cases x) simp_all

lemma parse_value_literals:
  "parse_value (Suc m) (js ''null'' @ rest) = Some (JNull, rest)"
  "parse_value (Suc m) (js ''true'' @ rest) = Some (JBool True, rest)"
  "parse_value (Suc m) (js ''false'' @ rest) = Some (JBool False, rest)"
  by (simp_all add: js_def skip_ws_def is_ws_def parse_scalar_def)

lemma roundtrip_value:
  assumes gap: "\<forall>c\<in>set gap. is_ws c"
  shows "\<forall>c\<in>set ind. is_ws c \<Longrightarrow> number_end rest \<Longrightarrow> cost v \<le> n \<Longrightarrow>
         parse_value n (SerializeJSONProperty gap ind v @ rest) = Some (as_written v, rest)"
proof (induction v arbitrary: ind rest n)
  case JNull
  then obtain m where "n = Suc m" by (cases n) simp_all
  then show ?case
    by (simp add: parse_value_literals del: parse_value.simps)
next
  case (JBool b)
  then obtain m where "n = Suc m" by (cases n) simp_all
  then show ?case
    by (cases b) (simp_all add: parse_value_literals del: parse_value.simps)
next
  case (JNum x)
  then obtain m where n: "n = Suc m" by (cases n) simp_all
  show ?case
  proof (cases "is_finite x")
    case True
    obtain c cs where c: "NumberToString x = c # cs" "digit_of_unit c \<noteq> None \<or> c = 0x2D"
      using number_first [OF True] by blast
    then have "\<not> is_ws c" "c \<noteq> 0x5B" "c \<noteq> 0x7B" "c \<noteq> 0x22"
      using digit_not_special [of c] minus_not_special by auto
    then have "parse_value (Suc m) (c # cs @ rest) = parse_scalar (c # cs @ rest)"
      by (rule parse_value_scalar)
    with c(1) have "parse_value n (NumberToString x @ rest) = parse_scalar (NumberToString x @ rest)"
      by (simp add: n)
    with JNum.prems(2) True show ?thesis
      by (simp add: parse_scalar_number written_as_written [symmetric] del: as_written.simps)
  next
    case False
    have "parse_value n (js ''null'' @ rest) = Some (JNull, rest)"
      unfolding n by (rule parse_value_literals)
    with False show ?thesis by simp
  qed
next
  case (JStr t)
  then obtain m where "n = Suc m" by (cases n) simp_all
  then show ?case
    by (simp add: skip_ws_Cons closers QuoteJSONString_def parse_chars_quoted
          del: parse_chars.simps)
next
  case (JArr vs)
  from JArr.prems(3) obtain m where n: "n = Suc m" "sum_list (map (\<lambda>v. Suc (cost v)) vs) \<le> m"
    by (cases n) simp_all
  show ?case
  proof (cases "vs = []")
    case True
    then show ?thesis
      by (simp add: n wrap_def skip_ws_Cons closers brackets)
  next
    case False
    let ?ind = "ind @ gap"
    let ?pre = "if gap = [] then [] else 0x0A # ind @ gap"
    let ?post = "if gap = [] then [] else 0x0A # ind"
    let ?body = "?pre @ join (0x2C # ?pre) (map (SerializeJSONProperty gap ?ind) vs)
                   @ ?post @ 0x5D # rest"
    have ws: "\<forall>c\<in>set ?pre. is_ws c" "\<forall>c\<in>set ?post. is_ws c" "\<forall>c\<in>set ?ind. is_ws c"
      using gap JArr.prems(1) by (auto simp: is_ws_newline)
    have elems: "parse_elements m ?body = Some (map as_written vs, rest)"
    proof (rule roundtrip_elements [OF False _ ws(1,2) n(2)])
      show "parse_value n (SerializeJSONProperty gap ?ind v @ rest) = Some (as_written v, rest)"
        if "v \<in> set vs" "number_end rest" "cost v \<le> n" for v rest n
        using JArr.IH [OF that(1) ws(3) that(2,3)] .
    qed
    obtain v vs' where vs: "vs = v # vs'"
      using False by (cases vs) auto
    obtain c cs where c: "SerializeJSONProperty gap ?ind v = c # cs" "\<not> is_ws c" "c \<noteq> 0x5D"
      using ser_first by blast
    obtain ds where "join (0x2C # ?pre) (map (SerializeJSONProperty gap ?ind) vs)
                       @ ?post @ 0x5D # rest = c # ds"
      using join_first [of "map (SerializeJSONProperty gap ?ind) vs" c cs] c(1) vs by auto
    then have first: "skip_ws ?body = c # ds"
      using ws(1) c(2) by (simp add: skip_ws_append skip_ws_Cons)
    have "SerializeJSONProperty gap ind (JArr vs) @ rest = 0x5B # ?body"
      using False by (simp add: wrap_nonempty brackets)
    then show ?thesis
      using first c(3) elems by (simp add: n skip_ws_Cons closers)
  qed
next
  case (JObj ms)
  from JObj.prems(3) obtain m
    where n: "n = Suc m" "sum_list (map (\<lambda>(k, v). Suc (cost v)) ms) \<le> m"
    by (cases n) simp_all
  show ?case
  proof (cases "ms = []")
    case True
    then show ?thesis
      by (simp add: n wrap_def skip_ws_Cons closers brackets)
  next
    case False
    let ?ind = "ind @ gap"
    let ?pre = "if gap = [] then [] else 0x0A # ind @ gap"
    let ?post = "if gap = [] then [] else 0x0A # ind"
    let ?sp = "if gap = [] then [] else [0x20]"
    let ?member = "\<lambda>(k, v). QuoteJSONString k @ 0x3A # ?sp @ SerializeJSONProperty gap ?ind v"
    let ?body = "?pre @ join (0x2C # ?pre) (map ?member ms) @ ?post @ 0x7D # rest"
    have ws: "\<forall>c\<in>set ?pre. is_ws c" "\<forall>c\<in>set ?post. is_ws c" "\<forall>c\<in>set ?sp. is_ws c"
      "\<forall>c\<in>set ?ind. is_ws c"
      using gap JObj.prems(1) by (auto simp: is_ws_newline)
    have members: "parse_members m ?body = Some (map (\<lambda>(k, v). (k, as_written v)) ms, rest)"
    proof (rule roundtrip_members [OF False _ ws(1,2,3) n(2)])
      show "parse_value n (SerializeJSONProperty gap ?ind v @ rest) = Some (as_written v, rest)"
        if "(k, v) \<in> set ms" "number_end rest" "cost v \<le> n" for k v rest n
      proof (rule JObj.IH [OF that(1) _ ws(4) that(2,3)])
        show "v \<in> Basic_BNFs.snds (k, v)" by simp
      qed
    qed
    obtain k v ms' where ms: "ms = (k, v) # ms'"
      using False by (cases ms) auto
    have "hd (map ?member ms) = 0x22 # (quote_units k @ [0x22] @ 0x3A # ?sp
            @ SerializeJSONProperty gap ?ind v)"
      by (simp add: ms QuoteJSONString_def)
    then obtain ds where "join (0x2C # ?pre) (map ?member ms) @ ?post @ 0x7D # rest
                            = 0x22 # ds"
      using join_first [of "map ?member ms" "0x22"] False by fastforce
    then have first: "skip_ws ?body = 0x22 # ds"
      using ws(1) by (simp add: skip_ws_append skip_ws_Cons closers)
    have "SerializeJSONProperty gap ind (JObj ms) @ rest = 0x7B # ?body"
      using False by (simp add: wrap_nonempty brackets)
    then show ?thesis
      using first members by (simp add: n skip_ws_Cons closers)
  qed
qed

lemma join_length:
  "xs \<noteq> [] \<Longrightarrow> sep \<noteq> [] \<Longrightarrow>
   sum_list (map (\<lambda>x. Suc (length x)) xs) \<le> Suc (length (join sep xs))"
proof (induction xs rule: list_nonempty_induct)
  case (single x)
  show ?case by simp
next
  case (cons x xs)
  from cons.prems have "Suc 0 \<le> length sep" by (cases sep) simp_all
  moreover have "sum_list (map (\<lambda>x. Suc (length x)) xs) \<le> Suc (length (join sep xs))"
    using cons.IH cons.prems by simp
  ultimately show ?case using cons.hyps by (simp add: join_Cons)
qed

lemma wrap_length:
  assumes "sum_list (map (\<lambda>x. Suc (length x)) partial) \<ge> k"
  shows "Suc k \<le> length (wrap [o1] [c1] gap ind partial)"
proof (cases "partial = []")
  case True
  with assms show ?thesis by (simp add: wrap_def)
next
  case False
  from join_length [OF False, of "0x2C # (if gap = [] then [] else 0x0A # ind @ gap)"]
  show ?thesis using assms False by (simp add: wrap_nonempty)
qed

lemma cost_le_length: "cost v \<le> length (SerializeJSONProperty gap ind v)"
proof (induction v arbitrary: ind)
  case (JNum x)
  obtain c cs where "SerializeJSONProperty gap ind (JNum x) = c # cs"
    using ser_first by blast
  then show ?case by simp
next
  case (JArr vs)
  have "sum_list (map (\<lambda>v. Suc (cost v)) vs)
          \<le> sum_list (map (\<lambda>x. Suc (length x)) (map (SerializeJSONProperty gap (ind @ gap)) vs))"
    unfolding map_map by (rule sum_list_mono) (simp add: JArr.IH)
  from wrap_length [OF this] show ?case by (simp add: brackets)
next
  case (JObj ms)
  have "sum_list (map (\<lambda>(k, v). Suc (cost v)) ms)
          \<le> sum_list (map (\<lambda>x. Suc (length x))
               (map (\<lambda>(k, v). QuoteJSONString k @ js '':'' @ (if gap = [] then [] else js '' '')
                          @ SerializeJSONProperty gap (ind @ gap) v) ms))"
    unfolding map_map
  proof (rule sum_list_mono)
    fix kv assume kv: "kv \<in> set ms"
    obtain k v where [simp]: "kv = (k, v)" by (cases kv)
    have "cost v \<le> length (SerializeJSONProperty gap (ind @ gap) v)"
      using JObj.IH [OF kv, of v] by simp
    then show "(case kv of (k, v) \<Rightarrow> Suc (cost v))
                 \<le> ((\<lambda>x. Suc (length x)) \<circ> (\<lambda>(k, v). QuoteJSONString k @ js '':''
                        @ (if gap = [] then [] else js '' '')
                        @ SerializeJSONProperty gap (ind @ gap) v)) kv"
      by simp
  qed
  from wrap_length [OF this] show ?case by (simp add: brackets)
qed (simp_all add: QuoteJSONString_def js_def)

lemma JSON_parse_stringify_2: "JSON_parse (JSON_stringify_2 v) = Some (as_written v)"
proof -
  have "parse_value (length (JSON_stringify_2 v)) (JSON_stringify_2 v @ [])
          = Some (as_written v, [])"
    unfolding JSON_stringify_2_def
    by (rule roundtrip_value) (simp_all add: is_ws_def number_end_def cost_le_length brackets)
  then show ?thesis
    by (simp add: JSON_parse_def skip_ws_def)
qed

lemma JSON_parse_stringify: "JSON_parse (JSON_stringify v) = Some (as_written v)"
proof -
  have "parse_value (length (JSON_stringify v)) (JSON_stringify v @ []) = Some (as_written v, [])"
    unfolding JSON_stringify_def
    by (rule roundtrip_value) (simp_all add: number_end_def cost_le_length)
  then show ?thesis
    by (simp add: JSON_parse_def skip_ws_def)
qed

lemma of_char_inj_unit: "(of_char a :: code_unit) = of_char b \<longleftrightarrow> a = b"
proof
  assume eq: "(of_char a :: code_unit) = of_char b"
  have small: "(of_char c :: nat) mod 65536 = of_char c" for c :: char
  proof (rule mod_less)
    have "(of_char c :: nat) < 256" by (rule nat_of_char_less_256)
    then show "(of_char c :: nat) < 65536" by linarith
  qed
  have "unat (of_nat (of_char a :: nat) :: code_unit) = unat (of_nat (of_char b :: nat) :: code_unit)"
    using eq by (simp only: of_nat_of_char)
  then have "(of_char a :: nat) = of_char b"
    using small [of a] small [of b] by (simp add: unat_of_nat)
  then show "a = b" by simp
qed simp

lemma js_inj [simp]: "js a = js b \<longleftrightarrow> a = b"
  unfolding js_def by (rule inj_map_eq_map) (simp add: inj_def of_char_inj_unit)

lemma js_append: "js (a @ b) = js a @ js b"
  by (simp add: js_def)


section \<open>The branches of the executor\<close>


lemma try_block_text_rejected:
  "upstream (upstream_request query variables) = Inr r \<Longrightarrow> json_result r = Inl e \<Longrightarrow>
   text_result r = Inl error \<Longrightarrow>
   fst (try_block upstream query variables) = Inl error"
  by (simp add: try_block_def Let_def)

lemma try_block_non_json:
  "upstream (upstream_request query variables) = Inr r \<Longrightarrow> json_result r = Inl e \<Longrightarrow>
   text_result r = Inr errorText \<Longrightarrow>
   fst (try_block upstream query variables) = Inr (non_json_response (status r) errorText)"
  by (simp add: try_block_def Let_def)

lemma try_block_http_error:
  "upstream (upstream_request query variables) = Inr r \<Longrightarrow> json_result r = Inr b \<Longrightarrow>
   \<not> ok r \<Longrightarrow>
   fst (try_block upstream query variables) = Inr (http_error (status r) b)"
  by (simp add: try_block_def Let_def)

lemma try_block_success:
  "upstream (upstream_request query variables) = Inr r \<Longrightarrow> json_result r = Inr b \<Longrightarrow>
   ok r \<Longrightarrow>
   fst (try_block upstream query variables) = Inr b"
  by (simp add: try_block_def Let_def)


lemma execute_returned:
  "fst (try_block upstream query variables) = Inr j \<Longrightarrow>
   fst (executePharosGraphQLQuery upstream query variables) = Inr j"
  by (cases "try_block upstream query variables") (simp add: executePharosGraphQLQuery_def)

lemma execute_total:
  "\<exists>j. fst (executePharosGraphQLQuery upstream query variables) = Inr j"
  by (cases "try_block upstream query variables")
     (auto simp: executePharosGraphQLQuery_def split: sum.splits)

lemma gateway_wraps:
  "fst (executePharosGraphQLQuery upstream query variables) = Inr j \<Longrightarrow>
   fst (pharos_graphql_query upstream query variables)
     = Inr \<lparr> content = [\<lparr> item_type = js ''text'', item_text = JSON_stringify_2 j \<rparr>] \<rparr>"
  by (cases "executePharosGraphQLQuery upstream query variables")
     (simp add: pharos_graphql_query_def Let_def)

lemma fetches_append: "fetches (xs @ ys) = fetches xs @ fetches ys"
  by (induction xs rule: fetches.induct) simp_all

lemma try_block_fetches:
  "fetches (snd (try_block upstream query variables)) = [upstream_request query variables]"
  by (simp add: try_block_def Let_def fetches_append split: sum.splits)

lemma execute_fetches:
  "fetches (snd (executePharosGraphQLQuery upstream query variables))
     = [upstream_request query variables]"
  using try_block_fetches [of upstream query variables]
  by (cases "try_block upstream query variables")
     (auto simp: executePharosGraphQLQuery_def fetches_append split: sum.splits)

lemma gateway_fetches:
  "fetches (snd (pharos_graphql_query upstream query variables))
     = [upstream_request query variables]"
  using execute_fetches [of upstream query variables]
  by (cases "executePharosGraphQLQuery upstream query variables")
     (auto simp: pharos_graphql_query_def Let_def fetches_append split: sum.splits option.splits)

lemma http_error_statusCode:
  "extension ''statusCode'' (http_error st b) = Some (JNum (number_of_nat st))"
  by (simp add: extension_def first_error_def property_def http_error_def)

lemma http_error_is: "is_GraphQLHttpError st (http_error st b)"
  by (simp add: is_GraphQLHttpError_def extension_def first_error_def property_def http_error_def)

lemma non_json_is: "is_NonJsonResponse st (non_json_response st t)"
  by (simp add: is_NonJsonResponse_def extension_def first_error_def property_def non_json_response_def)


lemma replicate_small:
  "replicate 1 x = [x]" "replicate 2 x = [x, x]" "replicate 3 x = [x, x, x]"
  by (simp_all add: numeral_2_eq_2 numeral_3_eq_3)

lemmas status_text =
  number_of_nat_def nat_digits.simps digit_of_nat_def normalise_def finite_to_string_def
  units_def js_def replicate_small

lemma as_written_plain: "plain v \<Longrightarrow> as_written v = v"
proof (induction v)
  case (JArr vs)
  then have "map as_written vs = vs"
    by (intro map_idI) (simp add: list_all_iff)
  then show ?case by simp
next
  case (JObj ms)
  have "map (\<lambda>(k, v). (k, as_written v)) ms = ms"
  proof (rule map_idI)
    fix kv assume kv: "kv \<in> set ms"
    obtain k v where [simp]: "kv = (k, v)" by (cases kv)
    from JObj.prems kv have "plain v" by (auto simp: list_all_iff)
    with JObj.IH [OF kv, of v] show "(case kv of (k, v) \<Rightarrow> (k, as_written v)) = kv"
      by simp
  qed
  then show ?case by simp
qed simp_all

lemma is_finite_number_of_nat [simp]: "is_finite (number_of_nat n)"
  by (simp add: number_of_nat_def normalise_def split: list.splits digit.splits)

text \<open>The facts that evaluate the text of a key, and of a value with numbers in it.\<close>

lemmas key_eval =
  QuoteJSONString_def quote_unit_def is_leading_def is_trailing_def js_def

lemmas text_eval =
  key_eval finite_to_string_def exponent_part_def show_nat_def nat_digits.simps digit_of_nat_def
  units_def replicate_small


section \<open>Status codes of 400 and above\<close>

text \<open>
  C1, as the code has it. The executor reads the body before it looks at the status (line 89
  before line 105), so the object of lines 108-116 is built for the responses whose body
  \<^verbatim>\<open>response.json()\<close> could parse: for every response with a status of 400 or more and such a
  body, the result is the GraphQLHttpError object, with the status code in
  \<^verbatim>\<open>errors[0].extensions.statusCode\<close> and the parsed body beside it.
\<close>

theorem http_error_for_parsed_body:
  assumes "upstream (upstream_request query variables) = Inr r"
    and "json_result r = Inr b"
    and "400 \<le> status r"
  shows "fst (executePharosGraphQLQuery upstream query variables) = Inr (http_error (status r) b)
         \<and> is_GraphQLHttpError (status r) (http_error (status r) b)
         \<and> extension ''statusCode'' (http_error (status r) b)
             = Some (JNum (number_of_nat (status r)))"
proof -
  from assms(3) have "\<not> ok r"
    by (simp add: ok_def)
  with assms(1,2) have "fst (try_block upstream query variables) = Inr (http_error (status r) b)"
    by (rule try_block_http_error)
  then have "fst (executePharosGraphQLQuery upstream query variables)
               = Inr (http_error (status r) b)"
    by (rule execute_returned)
  then show ?thesis
    by (simp add: http_error_is http_error_statusCode)
qed

text \<open>A reply 404 with the body \<^verbatim>\<open>{"error":"Not Found"}\<close>. The number 404 is the digits 4, 0, 4
  with the decimal point after the third.\<close>

theorem http_error_for_parsed_body_witness:
  "(400::nat) \<le> 404
   \<and> fst (executePharosGraphQLQuery
          (\<lambda>request. Inr \<lparr> status = 404,
                             json_result = Inr (JObj [(js ''error'', JStr (js ''Not Found''))]),
                             text_result = Inr [] \<rparr>)
          (js ''{ targets { count } }'') None)
       = Inr (JObj [(js ''errors'', JArr [JObj
           [(js ''message'', JStr (js ''Pharos API HTTP Error 404'')),
            (js ''extensions'', JObj
               [(js ''statusCode'', JNum (Finite False (Multi N4 [D0] N4) 3)),
                (js ''responseBody'', JObj [(js ''error'', JStr (js ''Not Found''))])])]])])
   \<and> extension ''statusCode'' (http_error 404 (JObj [(js ''error'', JStr (js ''Not Found''))]))
       = Some (JNum (Finite False (Multi N4 [D0] N4) 3))"
  using http_error_for_parsed_body
          [of "\<lambda>request. Inr \<lparr> status = 404,
                                   json_result = Inr (JObj [(js ''error'', JStr (js ''Not Found''))]),
                                   text_result = Inr [] \<rparr>"
              "js ''{ targets { count } }''" None
              "\<lparr> status = 404, json_result = Inr (JObj [(js ''error'', JStr (js ''Not Found''))]),
                 text_result = Inr [] \<rparr>"
              "JObj [(js ''error'', JStr (js ''Not Found''))]"]
  by (simp add: http_error_def status_text)

text \<open>
  C1 as stated fails for a body that is not JSON: a reply 500 with the body
  \<^verbatim>\<open>Internal Server Error\<close>. \<^verbatim>\<open>response.json()\<close> rejects and the inner \<^verbatim>\<open>catch\<close> runs. Where
  its \<^verbatim>\<open>response.text()\<close> yields the text, the result is the NonJsonResponse object; where it
  rejects, because \<^verbatim>\<open>response.json()\<close> has read the body already, the outer \<^verbatim>\<open>catch\<close> builds
  the client-error object, which has no status code at all. Neither is the GraphQLHttpError
  object.
\<close>

theorem non_json_error_status_counterexample:
  "fst (executePharosGraphQLQuery
          (\<lambda>request. Inr \<lparr> status = 500,
               json_result = Inl (ErrorInstance (js ''Unexpected token I in JSON at position 0'')),
               text_result = Inr (js ''Internal Server Error'') \<rparr>)
          (js ''{ targets { count } }'') None)
     = Inr (JObj [(js ''errors'', JArr [JObj
          [(js ''message'', JStr (js ''Pharos API Error 500: Non-JSON response.'')),
           (js ''extensions'', JObj [(js ''statusCode'', JNum (Finite False (Single N5) 3)),
                                  (js ''responseText'', JStr (js ''Internal Server Error''))])]])])
   \<and> \<not> is_GraphQLHttpError 500
         (JObj [(js ''errors'', JArr [JObj
          [(js ''message'', JStr (js ''Pharos API Error 500: Non-JSON response.'')),
           (js ''extensions'', JObj [(js ''statusCode'', JNum (Finite False (Single N5) 3)),
                                  (js ''responseText'', JStr (js ''Internal Server Error''))])]])])
   \<and> fst (executePharosGraphQLQuery
          (\<lambda>request. Inr \<lparr> status = 500,
               json_result = Inl (ErrorInstance (js ''Unexpected token I in JSON at position 0'')),
               text_result = Inl (ErrorInstance (js ''Body has already been used.'')) \<rparr>)
          (js ''{ targets { count } }'') None)
     = Inr (JObj [(js ''errors'', JArr [JObj
          [(js ''message'', JStr (js ''Body has already been used.'')),
           (js ''extensions'', JObj [(js ''clientError'', JBool True)])]])])
   \<and> \<not> is_GraphQLHttpError 500
         (JObj [(js ''errors'', JArr [JObj
          [(js ''message'', JStr (js ''Body has already been used.'')),
           (js ''extensions'', JObj [(js ''clientError'', JBool True)])]])])
   \<and> extension ''statusCode''
         (JObj [(js ''errors'', JArr [JObj
          [(js ''message'', JStr (js ''Body has already been used.'')),
           (js ''extensions'', JObj [(js ''clientError'', JBool True)])]])]) = None"
  by (simp add: executePharosGraphQLQuery_def try_block_def Let_def non_json_response_def
        client_error_def errorMessage_def status_text
        is_GraphQLHttpError_def extension_def first_error_def property_def)


section \<open>Success is passed through\<close>

text \<open>
  C2, as the code has it. For every response with a status from 200 to 299 whose body
  \<^verbatim>\<open>response.json()\<close> parsed, the executor returns the parsed body itself, whatever it holds
  (a \<^verbatim>\<open>data\<close> member, an \<^verbatim>\<open>errors\<close> array, both or neither), and the gateway returns one text
  item, the body written by \<^verbatim>\<open>JSON.stringify\<close> with an indentation of two. That text, read
  back as JSON, is the body with every number that is not finite replaced by \<^verbatim>\<open>null\<close> and
  negative zero by \<^verbatim>\<open>0\<close>: it is exactly the body when the body holds neither.
\<close>

theorem success_is_passed_through:
  assumes "upstream (upstream_request query variables) = Inr r"
    and "json_result r = Inr b"
    and "200 \<le> status r" and "status r \<le> 299"
  shows "fst (executePharosGraphQLQuery upstream query variables) = Inr b
         \<and> fst (pharos_graphql_query upstream query variables)
             = Inr \<lparr> content = [\<lparr> item_type = js ''text'',
                                     item_text = JSON_stringify_2 b \<rparr>] \<rparr>
         \<and> JSON_parse (JSON_stringify_2 b) = Some (as_written b)
         \<and> (plain b \<longrightarrow> JSON_parse (JSON_stringify_2 b) = Some b)"
proof -
  from assms(3,4) have "ok r"
    by (simp add: ok_def)
  with assms(1,2) have "fst (try_block upstream query variables) = Inr b"
    by (rule try_block_success)
  then have result: "fst (executePharosGraphQLQuery upstream query variables) = Inr b"
    by (rule execute_returned)
  from result gateway_wraps [OF result] show ?thesis
    by (simp add: JSON_parse_stringify_2 as_written_plain)
qed

text \<open>A reply 200 whose body has an \<^verbatim>\<open>errors\<close> array beside \<^verbatim>\<open>data\<close>, with the numbers 0.5
  and 1e21: the result is that body, not one of the executor's own error objects, the text
  of the envelope is its pretty-printed form, and the text read back is the body.\<close>

theorem success_is_passed_through_witness:
  "(200::nat) \<le> 200 \<and> (200::nat) \<le> 299
   \<and> plain (JObj [(js ''errors'', JArr [JObj [(js ''message'', JStr (js ''Syntax Error''))]]),
                  (js ''data'', JObj [(js ''score'', JNum (Finite False (Single N5) 0)),
                                      (js ''n'', JNum (Finite False (Single N1) 22))])])
   \<and> fst (executePharosGraphQLQuery
          (\<lambda>request. Inr \<lparr> status = 200,
               json_result = Inr (JObj
                 [(js ''errors'', JArr [JObj [(js ''message'', JStr (js ''Syntax Error''))]]),
                  (js ''data'', JObj [(js ''score'', JNum (Finite False (Single N5) 0)),
                                      (js ''n'', JNum (Finite False (Single N1) 22))])]),
               text_result = Inr [] \<rparr>)
          (js ''{ target('') None)
       = Inr (JObj [(js ''errors'', JArr [JObj [(js ''message'', JStr (js ''Syntax Error''))]]),
                    (js ''data'', JObj [(js ''score'', JNum (Finite False (Single N5) 0)),
                                        (js ''n'', JNum (Finite False (Single N1) 22))])])
   \<and> fst (pharos_graphql_query
          (\<lambda>request. Inr \<lparr> status = 200,
               json_result = Inr (JObj
                 [(js ''errors'', JArr [JObj [(js ''message'', JStr (js ''Syntax Error''))]]),
                  (js ''data'', JObj [(js ''score'', JNum (Finite False (Single N5) 0)),
                                      (js ''n'', JNum (Finite False (Single N1) 22))])]),
               text_result = Inr [] \<rparr>)
          (js ''{ target('') None)
       = Inr \<lparr> content = [\<lparr> item_type = js ''text'',
            item_text =
              js ''{'' @ [0x0A] @ js ''  '' @ [0x22] @ js ''errors'' @ [0x22]
              @ js '': ['' @ [0x0A] @ js ''    {'' @ [0x0A] @ js ''      '' @ [0x22]
              @ js ''message'' @ [0x22] @ js '': '' @ [0x22] @ js ''Syntax Error''
              @ [0x22, 0x0A] @ js ''    }'' @ [0x0A] @ js ''  ],'' @ [0x0A] @ js ''  ''
              @ [0x22] @ js ''data'' @ [0x22] @ js '': {'' @ [0x0A] @ js ''    ''
              @ [0x22] @ js ''score'' @ [0x22] @ js '': 0.5,'' @ [0x0A] @ js ''    ''
              @ [0x22] @ js ''n'' @ [0x22] @ js '': 1e+21'' @ [0x0A] @ js ''  }''
              @ [0x0A] @ js ''}'' \<rparr>] \<rparr>
   \<and> JSON_parse
         (js ''{'' @ [0x0A] @ js ''  '' @ [0x22] @ js ''errors'' @ [0x22]
              @ js '': ['' @ [0x0A] @ js ''    {'' @ [0x0A] @ js ''      '' @ [0x22]
              @ js ''message'' @ [0x22] @ js '': '' @ [0x22] @ js ''Syntax Error''
              @ [0x22, 0x0A] @ js ''    }'' @ [0x0A] @ js ''  ],'' @ [0x0A] @ js ''  ''
              @ [0x22] @ js ''data'' @ [0x22] @ js '': {'' @ [0x0A] @ js ''    ''
              @ [0x22] @ js ''score'' @ [0x22] @ js '': 0.5,'' @ [0x0A] @ js ''    ''
              @ [0x22] @ js ''n'' @ [0x22] @ js '': 1e+21'' @ [0x0A] @ js ''  }''
              @ [0x0A] @ js ''}'')
       = Some (JObj [(js ''errors'', JArr [JObj [(js ''message'', JStr (js ''Syntax Error''))]]),
                     (js ''data'', JObj [(js ''score'', JNum (Finite False (Single N5) 0)),
                                         (js ''n'', JNum (Finite False (Single N1) 22))])])"
proof -
  let ?b = "JObj [(js ''errors'', JArr [JObj [(js ''message'', JStr (js ''Syntax Error''))]]),
                  (js ''data'', JObj [(js ''score'', JNum (Finite False (Single N5) 0)),
                                      (js ''n'', JNum (Finite False (Single N1) 22))])]"
  let ?r = "\<lparr> status = 200, json_result = Inr ?b, text_result = Inr [] \<rparr>"
  have shape: "JSON_stringify_2 ?b =
              js ''{'' @ [0x0A] @ js ''  '' @ [0x22] @ js ''errors'' @ [0x22]
              @ js '': ['' @ [0x0A] @ js ''    {'' @ [0x0A] @ js ''      '' @ [0x22]
              @ js ''message'' @ [0x22] @ js '': '' @ [0x22] @ js ''Syntax Error''
              @ [0x22, 0x0A] @ js ''    }'' @ [0x0A] @ js ''  ],'' @ [0x0A] @ js ''  ''
              @ [0x22] @ js ''data'' @ [0x22] @ js '': {'' @ [0x0A] @ js ''    ''
              @ [0x22] @ js ''score'' @ [0x22] @ js '': 0.5,'' @ [0x0A] @ js ''    ''
              @ [0x22] @ js ''n'' @ [0x22] @ js '': 1e+21'' @ [0x0A] @ js ''  }''
              @ [0x0A] @ js ''}''"
    by (simp add: JSON_stringify_2_def wrap_def text_eval)
  have p: "plain ?b"
    by simp
  from success_is_passed_through [of "\<lambda>request. Inr ?r" "js ''{ target(''" None ?r ?b] p
  show ?thesis
    unfolding shape by simp
qed

text \<open>
  C2 as stated fails at a reply 200 with the body \<^verbatim>\<open>{"data":1e400}\<close>. \<^verbatim>\<open>response.json()\<close>
  reads the number as \<^verbatim>\<open>Infinity\<close>; the executor returns that body, \<^verbatim>\<open>JSON.stringify\<close> writes
  the number as \<^verbatim>\<open>null\<close>, and the text of the envelope read back is \<^verbatim>\<open>{"data":null}\<close>, which
  is not the body.
\<close>

theorem non_finite_number_counterexample:
  "fst (pharos_graphql_query
          (\<lambda>request. Inr \<lparr> status = 200,
               json_result = Inr (JObj [(js ''data'', JNum PosInf)]),
               text_result = Inr [] \<rparr>)
          (js ''{ targets { count } }'') None)
     = Inr \<lparr> content = [\<lparr> item_type = js ''text'',
          item_text = js ''{'' @ [0x0A] @ js ''  '' @ [0x22] @ js ''data'' @ [0x22]
                      @ js '': null'' @ [0x0A] @ js ''}'' \<rparr>] \<rparr>
   \<and> JSON_parse (js ''{'' @ [0x0A] @ js ''  '' @ [0x22] @ js ''data'' @ [0x22]
                   @ js '': null'' @ [0x0A] @ js ''}'')
     = Some (JObj [(js ''data'', JNull)])
   \<and> JObj [(js ''data'', JNull)] \<noteq> JObj [(js ''data'', JNum PosInf)]"
proof -
  let ?b = "JObj [(js ''data'', JNum PosInf)]"
  have shape: "JSON_stringify_2 ?b
                 = js ''{'' @ [0x0A] @ js ''  '' @ [0x22] @ js ''data'' @ [0x22]
                   @ js '': null'' @ [0x0A] @ js ''}''"
    by (simp add: JSON_stringify_2_def wrap_def text_eval)
  have "JSON_parse (JSON_stringify_2 ?b) = Some (as_written ?b)"
    by (rule JSON_parse_stringify_2)
  then show ?thesis
    unfolding shape
    by (simp add: pharos_graphql_query_def executePharosGraphQLQuery_def try_block_def Let_def
          ok_def shape)
qed


section \<open>A body that is not JSON\<close>

text \<open>
  C3 does not hold of the code. The handler of the inner \<^verbatim>\<open>catch\<close> (lines 90-103, "If JSON
  parsing fails, try to get text for error reporting") calls \<^verbatim>\<open>response.text()\<close> on the
  response whose body \<^verbatim>\<open>response.json()\<close> has just read to its end. By the Fetch standard a
  body is read once: a body whose stream has been read is unusable, and the second read
  rejects with a \<^verbatim>\<open>TypeError\<close> (its message is the runtime's own). The rejection leaves the
  inner handler, and the outer \<^verbatim>\<open>catch\<close> reports it as a client-side error. For a reply 502
  with the body \<^verbatim>\<open><html>Bad Gateway</html>\<close> the result carries neither the status code nor
  any text of the body.
\<close>

theorem non_json_body_ends_as_client_error:
  "fst (executePharosGraphQLQuery
          (\<lambda>request. Inr \<lparr> status = 502,
               json_result = Inl (ErrorInstance (js ''Unexpected token < in JSON at position 0'')),
               text_result = Inl (ErrorInstance (js ''Body has already been used.'')) \<rparr>)
          (js ''{ targets { count } }'') None)
     = Inr (JObj [(js ''errors'', JArr [JObj
          [(js ''message'', JStr (js ''Body has already been used.'')),
           (js ''extensions'', JObj [(js ''clientError'', JBool True)])]])])
   \<and> \<not> is_NonJsonResponse 502
         (JObj [(js ''errors'', JArr [JObj
          [(js ''message'', JStr (js ''Body has already been used.'')),
           (js ''extensions'', JObj [(js ''clientError'', JBool True)])]])])
   \<and> extension ''statusCode''
         (JObj [(js ''errors'', JArr [JObj
          [(js ''message'', JStr (js ''Body has already been used.'')),
           (js ''extensions'', JObj [(js ''clientError'', JBool True)])]])]) = None
   \<and> extension ''responseText''
         (JObj [(js ''errors'', JArr [JObj
          [(js ''message'', JStr (js ''Body has already been used.'')),
           (js ''extensions'', JObj [(js ''clientError'', JBool True)])]])]) = None"
  by (simp add: executePharosGraphQLQuery_def try_block_def Let_def
        client_error_def errorMessage_def
        is_NonJsonResponse_def extension_def first_error_def property_def)

text \<open>
  What the handler builds when \<^verbatim>\<open>response.text()\<close> does yield the text (a response without a
  body stream, whose text is empty, is one): the NonJsonResponse object, whatever the status,
  with the status code and the first 1000 code units of the text.
\<close>

theorem non_json_when_text_is_read:
  assumes "upstream (upstream_request query variables) = Inr r"
    and "json_result r = Inl e"
    and "text_result r = Inr errorText"
  shows "fst (executePharosGraphQLQuery upstream query variables)
           = Inr (non_json_response (status r) errorText)
         \<and> is_NonJsonResponse (status r) (non_json_response (status r) errorText)
         \<and> extension ''statusCode'' (non_json_response (status r) errorText)
             = Some (JNum (number_of_nat (status r)))
         \<and> extension ''responseText'' (non_json_response (status r) errorText)
             = Some (JStr (take 1000 errorText))
         \<and> length (take 1000 errorText) \<le> 1000"
proof -
  from assms have "fst (try_block upstream query variables)
                     = Inr (non_json_response (status r) errorText)"
    by (rule try_block_non_json)
  then have "fst (executePharosGraphQLQuery upstream query variables)
               = Inr (non_json_response (status r) errorText)"
    by (rule execute_returned)
  moreover have "extension ''statusCode'' (non_json_response (status r) errorText)
                   = Some (JNum (number_of_nat (status r)))"
    and "extension ''responseText'' (non_json_response (status r) errorText)
           = Some (JStr (take 1000 errorText))"
    by (simp_all add: extension_def first_error_def property_def non_json_response_def)
  ultimately show ?thesis
    by (simp add: non_json_is)
qed

theorem non_json_when_text_is_read_witness:
  "fst (executePharosGraphQLQuery
          (\<lambda>request. Inr \<lparr> status = 204,
               json_result = Inl (ErrorInstance (js ''Unexpected end of JSON input'')),
               text_result = Inr [] \<rparr>)
          (js ''{ targets { count } }'') None)
     = Inr (JObj [(js ''errors'', JArr [JObj
          [(js ''message'', JStr (js ''Pharos API Error 204: Non-JSON response.'')),
           (js ''extensions'', JObj [(js ''statusCode'', JNum (Finite False (Multi N2 [D0] N4) 3)),
                                     (js ''responseText'', JStr [])])]])])"
  using non_json_when_text_is_read
          [of "\<lambda>request. Inr \<lparr> status = 204,
                 json_result = Inl (ErrorInstance (js ''Unexpected end of JSON input'')),
                 text_result = Inr [] \<rparr>"
              "js ''{ targets { count } }''" None
              "\<lparr> status = 204,
                 json_result = Inl (ErrorInstance (js ''Unexpected end of JSON input'')),
                 text_result = Inr [] \<rparr>"
              "ErrorInstance (js ''Unexpected end of JSON input'')" "[]"]
  by (simp add: non_json_response_def status_text)


section \<open>A failed call\<close>




section \<open>The envelope\<close>

text \<open>
  C5. For every upstream behaviour, query and variables, the callback of the tool returns
  (it does not throw) an envelope whose content is exactly one item, of type \<^verbatim>\<open>text\<close>, whose
  text is \<^verbatim>\<open>JSON.stringify(result, null, 2)\<close> of what the executor returned. That text is JSON:
  read back, it is the result as \<^verbatim>\<open>JSON.stringify\<close> writes it. For the three objects the
  executor builds itself the text is spelled out: one member to a line, each level indented
  by two more spaces, a colon and a space after each key.
\<close>

theorem gateway_returns_one_text_item:
  "(\<exists>result. fst (executePharosGraphQLQuery upstream query variables) = Inr result
             \<and> fst (pharos_graphql_query upstream query variables)
                 = Inr \<lparr> content = [\<lparr> item_type = js ''text'',
                                         item_text = JSON_stringify_2 result \<rparr>] \<rparr>
             \<and> JSON_parse (JSON_stringify_2 result) = Some (as_written result))
   \<and> JSON_stringify_2 (client_error error)
       = js ''{'' @ [0x0A] @ js ''  '' @ [0x22] @ js ''errors'' @ [0x22]
         @ js '': ['' @ [0x0A] @ js ''    {'' @ [0x0A] @ js ''      '' @ [0x22]
         @ js ''message'' @ [0x22] @ js '': '' @ QuoteJSONString (errorMessage error)
         @ js '','' @ [0x0A] @ js ''      '' @ [0x22] @ js ''extensions'' @ [0x22]
         @ js '': {'' @ [0x0A] @ js ''        '' @ [0x22] @ js ''clientError''
         @ [0x22] @ js '': true'' @ [0x0A] @ js ''      }'' @ [0x0A] @ js ''    }''
         @ [0x0A] @ js ''  ]'' @ [0x0A] @ js ''}''
   \<and> JSON_stringify_2 (non_json_response st errorText)
       = js ''{'' @ [0x0A] @ js ''  '' @ [0x22] @ js ''errors'' @ [0x22]
         @ js '': ['' @ [0x0A] @ js ''    {'' @ [0x0A] @ js ''      '' @ [0x22]
         @ js ''message'' @ [0x22] @ js '': ''
         @ QuoteJSONString (js ''Pharos API Error '' @ NumberToString (number_of_nat st)
                            @ js '': Non-JSON response.'')
         @ js '','' @ [0x0A] @ js ''      '' @ [0x22] @ js ''extensions'' @ [0x22]
         @ js '': {'' @ [0x0A] @ js ''        '' @ [0x22] @ js ''statusCode''
         @ [0x22] @ js '': '' @ NumberToString (number_of_nat st)
         @ js '','' @ [0x0A] @ js ''        '' @ [0x22] @ js ''responseText''
         @ [0x22] @ js '': '' @ QuoteJSONString (take 1000 errorText)
         @ [0x0A] @ js ''      }'' @ [0x0A] @ js ''    }'' @ [0x0A] @ js ''  ]''
         @ [0x0A] @ js ''}''
   \<and> JSON_stringify_2 (http_error st responseBody)
       = js ''{'' @ [0x0A] @ js ''  '' @ [0x22] @ js ''errors'' @ [0x22]
         @ js '': ['' @ [0x0A] @ js ''    {'' @ [0x0A] @ js ''      '' @ [0x22]
         @ js ''message'' @ [0x22] @ js '': ''
         @ QuoteJSONString (js ''Pharos API HTTP Error '' @ NumberToString (number_of_nat st))
         @ js '','' @ [0x0A] @ js ''      '' @ [0x22] @ js ''extensions'' @ [0x22]
         @ js '': {'' @ [0x0A] @ js ''        '' @ [0x22] @ js ''statusCode''
         @ [0x22] @ js '': '' @ NumberToString (number_of_nat st)
         @ js '','' @ [0x0A] @ js ''        '' @ [0x22] @ js ''responseBody''
         @ [0x22] @ js '': '' @ SerializeJSONProperty (js ''  '') (js ''        '') responseBody
         @ [0x0A] @ js ''      }'' @ [0x0A] @ js ''    }'' @ [0x0A] @ js ''  ]''
         @ [0x0A] @ js ''}''"
proof -
  obtain result where result: "fst (executePharosGraphQLQuery upstream query variables) = Inr result"
    using execute_total by blast
  have one: "\<exists>result. fst (executePharosGraphQLQuery upstream query variables) = Inr result
             \<and> fst (pharos_graphql_query upstream query variables)
                 = Inr \<lparr> content = [\<lparr> item_type = js ''text'',
                                         item_text = JSON_stringify_2 result \<rparr>] \<rparr>
             \<and> JSON_parse (JSON_stringify_2 result) = Some (as_written result)"
    using result gateway_wraps [OF result] JSON_parse_stringify_2 by blast
  have two: "JSON_stringify_2 (client_error error)
       = js ''{'' @ [0x0A] @ js ''  '' @ [0x22] @ js ''errors'' @ [0x22]
         @ js '': ['' @ [0x0A] @ js ''    {'' @ [0x0A] @ js ''      '' @ [0x22]
         @ js ''message'' @ [0x22] @ js '': '' @ QuoteJSONString (errorMessage error)
         @ js '','' @ [0x0A] @ js ''      '' @ [0x22] @ js ''extensions'' @ [0x22]
         @ js '': {'' @ [0x0A] @ js ''        '' @ [0x22] @ js ''clientError''
         @ [0x22] @ js '': true'' @ [0x0A] @ js ''      }'' @ [0x0A] @ js ''    }''
         @ [0x0A] @ js ''  ]'' @ [0x0A] @ js ''}''"
    by (simp add: JSON_stringify_2_def client_error_def wrap_def key_eval)
  have three: "JSON_stringify_2 (non_json_response st errorText)
       = js ''{'' @ [0x0A] @ js ''  '' @ [0x22] @ js ''errors'' @ [0x22]
         @ js '': ['' @ [0x0A] @ js ''    {'' @ [0x0A] @ js ''      '' @ [0x22]
         @ js ''message'' @ [0x22] @ js '': ''
         @ QuoteJSONString (js ''Pharos API Error '' @ NumberToString (number_of_nat st)
                            @ js '': Non-JSON response.'')
         @ js '','' @ [0x0A] @ js ''      '' @ [0x22] @ js ''extensions'' @ [0x22]
         @ js '': {'' @ [0x0A] @ js ''        '' @ [0x22] @ js ''statusCode''
         @ [0x22] @ js '': '' @ NumberToString (number_of_nat st)
         @ js '','' @ [0x0A] @ js ''        '' @ [0x22] @ js ''responseText''
         @ [0x22] @ js '': '' @ QuoteJSONString (take 1000 errorText)
         @ [0x0A] @ js ''      }'' @ [0x0A] @ js ''    }'' @ [0x0A] @ js ''  ]''
         @ [0x0A] @ js ''}''"
    by (simp add: JSON_stringify_2_def non_json_response_def wrap_def key_eval)
  have four: "JSON_stringify_2 (http_error st responseBody)
       = js ''{'' @ [0x0A] @ js ''  '' @ [0x22] @ js ''errors'' @ [0x22]
         @ js '': ['' @ [0x0A] @ js ''    {'' @ [0x0A] @ js ''      '' @ [0x22]
         @ js ''message'' @ [0x22] @ js '': ''
         @ QuoteJSONString (js ''Pharos API HTTP Error '' @ NumberToString (number_of_nat st))
         @ js '','' @ [0x0A] @ js ''      '' @ [0x22] @ js ''extensions'' @ [0x22]
         @ js '': {'' @ [0x0A] @ js ''        '' @ [0x22] @ js ''statusCode''
         @ [0x22] @ js '': '' @ NumberToString (number_of_nat st)
         @ js '','' @ [0x0A] @ js ''        '' @ [0x22] @ js ''responseBody''
         @ [0x22] @ js '': '' @ SerializeJSONProperty (js ''  '') (js ''        '') responseBody
         @ [0x0A] @ js ''      }'' @ [0x0A] @ js ''    }'' @ [0x0A] @ js ''  ]''
         @ [0x0A] @ js ''}''"
    by (simp add: JSON_stringify_2_def http_error_def wrap_def key_eval js_append [symmetric])
  from one two three four show ?thesis
    by (intro conjI)
qed

text \<open>A refused connection, and a reply 200 with the body \<^verbatim>\<open>{"n":1e21,"x":0.5}\<close>: the
  envelopes, with their texts written out.\<close>

theorem gateway_returns_one_text_item_witness:
  "fst (pharos_graphql_query (\<lambda>request. Inl (ErrorInstance (js ''fetch failed'')))
          (js ''{ targets { count } }'') None)
     = Inr \<lparr> content = [\<lparr> item_type = js ''text'',
          item_text =
              js ''{'' @ [0x0A] @ js ''  '' @ [0x22] @ js ''errors'' @ [0x22]
              @ js '': ['' @ [0x0A] @ js ''    {'' @ [0x0A] @ js ''      '' @ [0x22]
              @ js ''message'' @ [0x22] @ js '': '' @ [0x22] @ js ''fetch failed''
              @ [0x22] @ js '','' @ [0x0A] @ js ''      '' @ [0x22] @ js ''extensions''
              @ [0x22] @ js '': {'' @ [0x0A] @ js ''        '' @ [0x22]
              @ js ''clientError'' @ [0x22] @ js '': true'' @ [0x0A] @ js ''      }''
              @ [0x0A] @ js ''    }'' @ [0x0A] @ js ''  ]'' @ [0x0A] @ js ''}'' \<rparr>] \<rparr>
   \<and> fst (pharos_graphql_query
          (\<lambda>request. Inr \<lparr> status = 200,
               json_result = Inr (JObj [(js ''n'', JNum (Finite False (Single N1) 22)),
                                        (js ''x'', JNum (Finite False (Single N5) 0))]),
               text_result = Inr [] \<rparr>)
          (js ''{ targets { count } }'') None)
     = Inr \<lparr> content = [\<lparr> item_type = js ''text'',
          item_text =
              js ''{'' @ [0x0A] @ js ''  '' @ [0x22] @ js ''n'' @ [0x22]
              @ js '': 1e+21,'' @ [0x0A] @ js ''  '' @ [0x22] @ js ''x'' @ [0x22]
              @ js '': 0.5'' @ [0x0A] @ js ''}'' \<rparr>] \<rparr>"
proof -
  have a: "QuoteJSONString (js ''fetch failed'') = [0x22] @ js ''fetch failed'' @ [0x22]"
    by (simp add: key_eval)
  have b: "JSON_stringify_2 (JObj [(js ''n'', JNum (Finite False (Single N1) 22)),
                                   (js ''x'', JNum (Finite False (Single N5) 0))])
             = js ''{'' @ [0x0A] @ js ''  '' @ [0x22] @ js ''n'' @ [0x22]
               @ js '': 1e+21,'' @ [0x0A] @ js ''  '' @ [0x22] @ js ''x'' @ [0x22]
               @ js '': 0.5'' @ [0x0A] @ js ''}''"
    by (simp add: JSON_stringify_2_def wrap_def text_eval)
  from gateway_returns_one_text_item
         [of "\<lambda>request. Inl (ErrorInstance (js ''fetch failed''))"
             "js ''{ targets { count } }''" None "ErrorInstance (js ''fetch failed'')"]
  have c: "JSON_stringify_2 (client_error (ErrorInstance (js ''fetch failed'')))
             = js ''{'' @ [0x0A] @ js ''  '' @ [0x22] @ js ''errors'' @ [0x22]
              @ js '': ['' @ [0x0A] @ js ''    {'' @ [0x0A] @ js ''      '' @ [0x22]
              @ js ''message'' @ [0x22] @ js '': '' @ [0x22] @ js ''fetch failed''
              @ [0x22] @ js '','' @ [0x0A] @ js ''      '' @ [0x22] @ js ''extensions''
              @ [0x22] @ js '': {'' @ [0x0A] @ js ''        '' @ [0x22]
              @ js ''clientError'' @ [0x22] @ js '': true'' @ [0x0A] @ js ''      }''
              @ [0x0A] @ js ''    }'' @ [0x0A] @ js ''  ]'' @ [0x0A] @ js ''}''"
    by (simp add: errorMessage_def a)
  show ?thesis
    unfolding b [symmetric] c [symmetric]
    by (simp add: pharos_graphql_query_def executePharosGraphQLQuery_def try_block_def Let_def
          ok_def)
qed


section \<open>The input contract\<close>

text \<open>
  C6, as the code has it. The schema of \<^verbatim>\<open>query\<close> is \<^verbatim>\<open>z.string()\<close>, with no bound on the
  length: the arguments are accepted exactly when \<^verbatim>\<open>query\<close> is a string, any string, and
  \<^verbatim>\<open>variables\<close> is missing or an object; and what the callback receives is that string as it
  came.
\<close>

theorem any_string_is_a_query:
  "input_schema args = Some (query, variables)
     \<longleftrightarrow> map_of args (js ''query'') = Some (JStr query)
         \<and> z_optional z_record_any (map_of args (js ''variables'')) = Some variables"
  by (auto simp: input_schema_def z_string_def split: option.splits json.splits)

theorem any_string_is_a_query_witness:
  "input_schema [(js ''query'', JStr (js ''  { targets { count } } ''))]
     = Some (js ''  { targets { count } } '', None)
   \<and> input_schema [(js ''variables'', JObj [(js ''id'', JStr (js ''P05067''))]),
                   (js ''query'', JStr (js ''q''))]
     = Some (js ''q'', Some [(js ''id'', JStr (js ''P05067''))])
   \<and> input_schema [(js ''query'', JNum (number_of_nat 7))] = None"
  using any_string_is_a_query [of "[(js ''query'', JStr (js ''  { targets { count } } ''))]"
          "js ''  { targets { count } } ''" None]
  by (simp add: input_schema_def z_string_def z_optional_def z_record_any_def)

text \<open>C6 as stated fails at the empty string: it satisfies the schema, and the request that
  follows has the body \<^verbatim>\<open>{"query":""}\<close>.\<close>

theorem empty_query_counterexample:
  "input_schema [(js ''query'', JStr [])] = Some ([], None)
   \<and> req_body (upstream_request [] None)
       = js ''{'' @ [0x22] @ js ''query'' @ [0x22] @ js '':'' @ [0x22, 0x22] @ js ''}''"
  by (simp add: input_schema_def z_string_def z_optional_def upstream_request_def bodyData_def
        JSON_stringify_def wrap_def key_eval)


section \<open>The upstream request\<close>

text \<open>
  C7. Every run of the callback, and of the executor, calls \<^verbatim>\<open>fetch\<close> exactly once, whatever
  the upstream does, with the request made of the query and the variables alone: the fixed
  URL, the method POST, the two headers, and as body the JSON text of an object that has the
  member \<^verbatim>\<open>query\<close>, the query as it came, and, exactly when variables were given, the member
  \<^verbatim>\<open>variables\<close>, the variables as \<^verbatim>\<open>JSON.stringify\<close> writes them.
\<close>

theorem one_post_per_invocation:
  "fetches (snd (pharos_graphql_query upstream query variables))
     = [upstream_request query variables]
   \<and> fetches (snd (executePharosGraphQLQuery upstream query variables))
     = [upstream_request query variables]
   \<and> req_url (upstream_request query variables) = js ''https://pharos-api.ncats.io/graphql''
   \<and> req_method (upstream_request query variables) = js ''POST''
   \<and> req_headers (upstream_request query variables)
     = [(js ''Content-Type'', js ''application/json''),
        (js ''User-Agent'',
         js ''MCPPharosServer/1.0.0 (ModelContextProtocol; +https://modelcontextprotocol.io)'')]
   \<and> req_body (upstream_request query None) = JSON_stringify (JObj [(js ''query'', JStr query)])
   \<and> req_body (upstream_request query (Some vs))
     = JSON_stringify (JObj [(js ''query'', JStr query), (js ''variables'', JObj vs)])
   \<and> JSON_stringify (JObj [(js ''query'', JStr query)])
     = js ''{'' @ [0x22] @ js ''query'' @ [0x22] @ js '':'' @ QuoteJSONString query @ js ''}''
   \<and> JSON_stringify (JObj [(js ''query'', JStr query), (js ''variables'', JObj vs)])
     = js ''{'' @ [0x22] @ js ''query'' @ [0x22] @ js '':'' @ QuoteJSONString query
       @ js '','' @ [0x22] @ js ''variables'' @ [0x22] @ js '':''
       @ JSON_stringify (JObj vs) @ js ''}''
   \<and> JSON_parse (req_body (upstream_request query variables))
     = Some (as_written (bodyData query variables))
   \<and> JSON_parse (req_body (upstream_request query None))
     = Some (JObj [(js ''query'', JStr query)])
   \<and> property ''query'' (as_written (bodyData query variables)) = Some (JStr query)
   \<and> property ''variables'' (as_written (bodyData query variables))
     = map_option (\<lambda>vs. as_written (JObj vs)) variables
   \<and> property ''query'' (bodyData query variables) = Some (JStr query)
   \<and> property ''variables'' (bodyData query variables) = map_option JObj variables"
proof -
  have "req_body (upstream_request query None) = JSON_stringify (JObj [(js ''query'', JStr query)])"
    by (simp add: upstream_request_def bodyData_def)
  moreover have "req_body (upstream_request query (Some vs))
      = JSON_stringify (JObj [(js ''query'', JStr query), (js ''variables'', JObj vs)])"
    by (simp add: upstream_request_def bodyData_def)
  moreover have "JSON_stringify (JObj [(js ''query'', JStr query)])
     = js ''{'' @ [0x22] @ js ''query'' @ [0x22] @ js '':'' @ QuoteJSONString query @ js ''}''"
    by (simp add: JSON_stringify_def wrap_def key_eval)
  moreover have "JSON_stringify (JObj [(js ''query'', JStr query), (js ''variables'', JObj vs)])
     = js ''{'' @ [0x22] @ js ''query'' @ [0x22] @ js '':'' @ QuoteJSONString query
       @ js '','' @ [0x22] @ js ''variables'' @ [0x22] @ js '':''
       @ JSON_stringify (JObj vs) @ js ''}''"
    by (simp add: JSON_stringify_def wrap_def key_eval)
  moreover have "JSON_parse (req_body (upstream_request query variables))
                   = Some (as_written (bodyData query variables))"
    by (simp add: upstream_request_def JSON_parse_stringify)
  moreover have "JSON_parse (req_body (upstream_request query None))
                   = Some (JObj [(js ''query'', JStr query)])"
    by (simp add: upstream_request_def JSON_parse_stringify bodyData_def)
  moreover have "property ''query'' (as_written (bodyData query variables)) = Some (JStr query)"
    and "property ''variables'' (as_written (bodyData query variables))
           = map_option (\<lambda>vs. as_written (JObj vs)) variables"
    and "property ''query'' (bodyData query variables) = Some (JStr query)"
    and "property ''variables'' (bodyData query variables) = map_option JObj variables"
    by (simp_all add: property_def bodyData_def split: option.splits)
  ultimately show ?thesis
    by (simp add: gateway_fetches execute_fetches
          upstream_request_def PHAROS_GRAPHQL_ENDPOINT_def headers_def)
qed


section \<open>Routing\<close>

text \<open>
  C8, as the code has it. A request whose pathname is \<^verbatim>\<open>/sse\<close> or begins with \<^verbatim>\<open>/sse/\<close> is
  handed to the event-stream handler, and nothing is answered or logged for it here; a
  request with any other pathname is answered with the status 404, the content type
  \<^verbatim>\<open>text/plain\<close> and one fixed body, which names \<^verbatim>\<open>/sse\<close>.
\<close>

theorem sse_paths_or_404:
  "(pathname = ''/sse'' \<or> prefix ''/sse/'' pathname \<longrightarrow>
      fetch pathname = (ServeSSE ''/sse'', []))
   \<and> (pathname \<noteq> ''/sse'' \<and> \<not> prefix ''/sse/'' pathname \<longrightarrow>
        fst (fetch pathname)
          = Respond \<lparr> reply_status = 404,
                      reply_headers = [(''Content-Type'', ''text/plain'')],
                      reply_body = ''Pharos MCP Server - Path not found.'' @ [CHR 0x0A]
                                   @ ''Available MCP paths:'' @ [CHR 0x0A]
                                   @ ''- /sse (for Server-Sent Events transport)'' \<rparr>)"
  by (simp add: fetch_def not_found_body_def)

theorem sse_paths_or_404_witness:
  "fetch ''/sse'' = (ServeSSE ''/sse'', [])
   \<and> prefix ''/sse/'' ''/sse/message''
   \<and> fetch ''/sse/message'' = (ServeSSE ''/sse'', [])
   \<and> ''/mcp'' \<noteq> ''/sse'' \<and> \<not> prefix ''/sse/'' ''/mcp''
   \<and> fst (fetch ''/mcp'')
       = Respond \<lparr> reply_status = 404,
                   reply_headers = [(''Content-Type'', ''text/plain'')],
                   reply_body = ''Pharos MCP Server - Path not found.'' @ [CHR 0x0A]
                                @ ''Available MCP paths:'' @ [CHR 0x0A]
                                @ ''- /sse (for Server-Sent Events transport)'' \<rparr>"
  using sse_paths_or_404 [of "''/sse''"] sse_paths_or_404 [of "''/sse/message''"]
    sse_paths_or_404 [of "''/mcp''"]
  by simp

text \<open>C8 as stated fails at \<^verbatim>\<open>/sse/message\<close>: a path other than \<^verbatim>\<open>/sse\<close> that is not answered
  with 404 but handed to the event-stream handler, as \<^verbatim>\<open>/sse\<close> is.\<close>

theorem second_sse_path_counterexample:
  "''/sse/message'' \<noteq> ''/sse''
   \<and> fst (fetch ''/sse/message'') = ServeSSE ''/sse''
   \<and> fst (fetch ''/sse'') = ServeSSE ''/sse''"
  by (simp add: fetch_def)

text \<open>
  C10. Every pathname that begins with \<^verbatim>\<open>/sse/\<close> is handed to the event-stream handler, and
  nothing is logged or answered for it; \<^verbatim>\<open>/sse\<close> and \<^verbatim>\<open>/sse/message\<close> are two different
  pathnames that both reach it.
\<close>

theorem sse_subpaths_reach_transport:
  "(prefix ''/sse/'' pathname \<longrightarrow> fetch pathname = (ServeSSE ''/sse'', []))
   \<and> fetch ''/sse'' = (ServeSSE ''/sse'', [])
   \<and> fetch ''/sse/message'' = (ServeSSE ''/sse'', [])
   \<and> ''/sse'' \<noteq> ''/sse/message''"
  by (simp add: fetch_def)

theorem sse_subpaths_reach_transport_witness:
  "prefix ''/sse/'' ''/sse/anything/below''
   \<and> fetch ''/sse/anything/below'' = (ServeSSE ''/sse'', [])"
  using sse_subpaths_reach_transport [of "''/sse/anything/below''"] by simp


section \<open>Determinism\<close>

text \<open>
  C9. What the callback returns, and what it logs and sends, depends on the upstream only
  through what \<^verbatim>\<open>fetch\<close> yields for the one request of this query and these variables: two
  upstreams that yield the same for it give the same envelope.
\<close>

theorem same_response_same_envelope:
  assumes "upstream1 (upstream_request query variables) = upstream2 (upstream_request query variables)"
  shows "pharos_graphql_query upstream1 query variables
           = pharos_graphql_query upstream2 query variables"
  using assms
  by (simp add: pharos_graphql_query_def executePharosGraphQLQuery_def try_block_def Let_def)

text \<open>Two upstreams that differ on other requests and agree on this one.\<close>

theorem same_response_same_envelope_witness:
  "pharos_graphql_query
     (\<lambda>request. Inr \<lparr> status = 200, json_result = Inr (JObj [(js ''data'', JNull)]),
                        text_result = Inr [] \<rparr>)
     (js ''{ targets { count } }'') None
   = pharos_graphql_query
     (\<lambda>request. if req_method request = js ''POST''
                 then Inr \<lparr> status = 200, json_result = Inr (JObj [(js ''data'', JNull)]),
                            text_result = Inr [] \<rparr>
                 else Inl (ErrorInstance (js ''method not allowed'')))
     (js ''{ targets { count } }'') None"
  using same_response_same_envelope
    [of "\<lambda>request. Inr \<lparr> status = 200, json_result = Inr (JObj [(js ''data'', JNull)]),
                        text_result = Inr [] \<rparr>"
        "js ''{ targets { count } }''" None
        "\<lambda>request. if req_method request = js ''POST''
                 then Inr \<lparr> status = 200, json_result = Inr (JObj [(js ''data'', JNull)]),
                            text_result = Inr [] \<rparr>
                 else Inl (ErrorInstance (js ''method not allowed''))"]
  by (simp add: upstream_request_def)

end
